theory Spec2Isabelle
  imports Main
begin


section \<open>The node store: \<^verbatim>\<open>lib/store/ContentType.js\<close>\<close>

subsection \<open>Nodes, events and errors\<close>

text \<open>
  A node (and the normalised options a node is made from: in the source they are the same
  object shape) carries its caller-visible \<^verbatim>\<open>id\<close>, the store-wide \<^verbatim>\<open>$uid\<close>, the row handle
  \<^verbatim>\<open>$loki\<close> that the collection assigns on insertion, and its field content. A property
  that is \<^verbatim>\<open>undefined\<close> is \<open>None\<close>.
\<close>

record node =
  node_id :: "string option"
  node_uid :: "string option"
  node_loki :: "nat option"
  node_fields :: "(string \<times> string) list"

text \<open>JavaScript truthiness of a string-or-undefined value: \<^verbatim>\<open>undefined\<close> and \<^verbatim>\<open>''\<close> are falsy.\<close>

definition truthy :: "string option \<Rightarrow> bool" where
  "truthy v = (case v of None \<Rightarrow> False | Some s \<Rightarrow> s \<noteq> [])"

text \<open>Template-literal rendering of a string-or-undefined value.\<close>

definition show_id :: "string option \<Rightarrow> string" where
  "show_id v = (case v of None \<Rightarrow> ''undefined'' | Some s \<Rightarrow> s)"

datatype event = Add node | Remove node | Update node node

datatype error = Error string | TypeError

subsection \<open>The backing collection\<close>

text \<open>
  Modelled from the spec: the collection object behind \<^verbatim>\<open>this._collection\<close> (created by the
  store, outside these sources). It holds the documents in insertion order together with
  the counter from which row handles are drawn. A query is \<^verbatim>\<open>{}\<close>, \<^verbatim>\<open>{ id }\<close> or
  \<^verbatim>\<open>{ $uid }\<close>; keys are compared by equality. \<^verbatim>\<open>id\<close> is a unique key (invariant 1 of the
  data model): an insert or update that would duplicate a defined id is rejected, and a
  rejected operation leaves the collection as it was.
\<close>

record collection =
  data :: "node list"
  maxId :: nat

datatype query = QAll | QId "string option" | QUid "string option"

fun matches :: "query \<Rightarrow> node \<Rightarrow> bool" where
  "matches QAll d = True"
| "matches (QId v) d = (node_id d = v)"
| "matches (QUid v) d = (node_uid d = v)"

definition findOne :: "collection \<Rightarrow> query \<Rightarrow> node option" where
  "findOne c q = List.find (matches q) (data c)"

definition findAndRemove :: "collection \<Rightarrow> query \<Rightarrow> collection" where
  "findAndRemove c q = c\<lparr>data := filter (\<lambda>d. \<not> matches q d) (data c)\<rparr>"

definition has_id :: "node list \<Rightarrow> string option \<Rightarrow> bool" where
  "has_id ds v = (v \<noteq> None \<and> list_ex (\<lambda>d. node_id d = v) ds)"

definition coll_insert :: "collection \<Rightarrow> node \<Rightarrow> string + (node \<times> collection)" where
  "coll_insert c n =
     (if node_loki n \<noteq> None then Inl ''Document is already in collection, please use update()''
      else if has_id (data c) (node_id n)
        then Inl (''Duplicate key for property id: '' @ show_id (node_id n))
      else
        (let n' = n\<lparr>node_loki := Some (Suc (maxId c))\<rparr>
         in Inr (n', c\<lparr>data := data c @ [n'], maxId := Suc (maxId c)\<rparr>)))"

text \<open>Position of the document that carries a given row handle.\<close>

fun position :: "nat \<Rightarrow> node list \<Rightarrow> nat option" where
  "position l [] = None"
| "position l (d # ds) =
     (if node_loki d = Some l then Some 0 else map_option Suc (position l ds))"

definition coll_update :: "collection \<Rightarrow> node \<Rightarrow> string + collection" where
  "coll_update c n =
     (case node_loki n of
        None \<Rightarrow> Inl ''Trying to update unsynced document. Please save the document first by using insert() or addMany()''
      | Some l \<Rightarrow>
          (case position l (data c) of
             None \<Rightarrow> Inl ''Trying to update a document not in collection.''
           | Some p \<Rightarrow>
               (if node_id (data c ! p) \<noteq> node_id n \<and> has_id (data c) (node_id n)
                  then Inl (''Duplicate key for property id: '' @ show_id (node_id n))
                else Inr (c\<lparr>data := (data c)[p := n]\<rparr>))))"

subsection \<open>The content type\<close>

text \<open>
  The state of one \<^verbatim>\<open>ContentType\<close>: its collection, its type name, the events emitted so far
  (\<^verbatim>\<open>this._events.emit\<close>) and the warnings logged so far (\<^verbatim>\<open>warn(message, tag)\<close>).
\<close>

record ContentType =
  collection_of :: collection
  typeName :: string
  emitted :: "event list"
  warned :: "(string \<times> string) list"

text \<open>
  The argument of \<^verbatim>\<open>getNode\<close> and \<^verbatim>\<open>removeNode\<close>: a string id, a query object, or
  \<^verbatim>\<open>undefined\<close> (which the collection reads as the empty query).
\<close>

datatype id_arg = Str string | Obj query | Undefined

definition to_query :: "id_arg \<Rightarrow> query" where
  "to_query a = (case a of Str s \<Rightarrow> QId (Some s) | Obj q \<Rightarrow> q | Undefined \<Rightarrow> QAll)"

definition getNode :: "ContentType \<Rightarrow> id_arg \<Rightarrow> node option" where
  "getNode ct a = findOne (collection_of ct) (to_query a)"

definition data_of :: "ContentType \<Rightarrow> node list" where
  "data_of ct = data (collection_of ct)"

text \<open>
  A call either throws (\<open>Inl\<close>) or returns a node or \<^verbatim>\<open>null\<close> (\<open>Inr\<close>); the content type
  after the call is returned beside it. The normaliser and the hook chain are the
  collaborators \<^verbatim>\<open>normalizeNodeOptions(options, this, true)\<close> and
  \<^verbatim>\<open>this._store.store.hooks.addNode.call(options, this)\<close>; a falsy hook result is \<open>None\<close>.
\<close>

type_synonym result = "(error + node option) \<times> ContentType"

definition addNode ::
  "('raw \<Rightarrow> ContentType \<Rightarrow> node) \<Rightarrow> (node \<Rightarrow> ContentType \<Rightarrow> node option) \<Rightarrow>
   ContentType \<Rightarrow> 'raw \<Rightarrow> result" where
  "addNode normalizeNodeOptions hook ct raw =
     (let options = normalizeNodeOptions raw ct in
      case hook options ct of
        None \<Rightarrow> (Inr None, ct)
      | Some node \<Rightarrow>
          (case coll_insert (collection_of ct) node of
             Inl msg \<Rightarrow>
               (Inr None, ct\<lparr>warned := warned ct @ [(''Failed to add node: '' @ msg, typeName ct)]\<rparr>)
           | Inr (node', c') \<Rightarrow>
               (Inr (Some node'), ct\<lparr>collection_of := c', emitted := emitted ct @ [Add node']\<rparr>)))"

definition removeNode :: "ContentType \<Rightarrow> id_arg \<Rightarrow> result" where
  "removeNode ct a =
     (case findOne (collection_of ct) (to_query a) of
        None \<Rightarrow> (Inl TypeError, ct)
      | Some node \<Rightarrow>
          (Inr None,
           ct\<lparr>collection_of := findAndRemove (collection_of ct) (QUid (node_uid node)),
              emitted := emitted ct @ [Remove node]\<rparr>))"

definition lookup_query :: "node \<Rightarrow> query" where
  "lookup_query options =
     (if truthy (node_uid options) then QUid (node_uid options) else QId (node_id options))"

definition updateNode ::
  "('raw \<Rightarrow> ContentType \<Rightarrow> node) \<Rightarrow> (node \<Rightarrow> ContentType \<Rightarrow> node option) \<Rightarrow>
   ContentType \<Rightarrow> 'raw \<Rightarrow> result" where
  "updateNode normalizeNodeOptions hook ct raw =
     (let options = normalizeNodeOptions raw ct in
      case getNode ct (Obj (lookup_query options)) of
        None \<Rightarrow>
          (Inl (Error (''Could not find node to update with id: '' @ show_id (node_id options))), ct)
      | Some oldNode \<Rightarrow>
          (case hook options ct of
             None \<Rightarrow>
               removeNode ct (case node_id oldNode of Some s \<Rightarrow> Str s | None \<Rightarrow> Undefined)
           | Some node0 \<Rightarrow>
               (let node = node0\<lparr>node_id := (if truthy (node_id options) then node_id options
                                               else node_id oldNode),
                                 node_loki := node_loki oldNode\<rparr>
                in case coll_update (collection_of ct) node of
                     Inl msg \<Rightarrow>
                       (Inr None,
                        ct\<lparr>warned := warned ct @ [(''Failed to update node: '' @ msg, typeName ct)]\<rparr>)
                   | Inr c' \<Rightarrow>
                       (Inr (Some node),
                        ct\<lparr>collection_of := c', emitted := emitted ct @ [Update node oldNode]\<rparr>))))"

text \<open>
  The invariants of a store that the update relies on, each on its own: every stored node
  has an id and no two share one (invariant 1 of the data model); no two stored nodes share
  a row handle \<^verbatim>\<open>$loki\<close>.
\<close>

definition unique_ids :: "ContentType \<Rightarrow> bool" where
  "unique_ids ct =
     (list_all (\<lambda>d. node_id d \<noteq> None) (data_of ct) \<and> distinct (map node_id (data_of ct)))"

definition unique_handles :: "ContentType \<Rightarrow> bool" where
  "unique_handles ct = distinct (map node_loki (data_of ct))"

section \<open>Schema composition: \<^verbatim>\<open>createSchema\<close>\<close>

subsection \<open>Types, resolvers and fields\<close>

text \<open>
  An output type as the composer holds it: a named type, possibly wrapped in list and
  non-null wrappers. A type given as a bare string is \<open>TypeName\<close> of that string.
\<close>

datatype type_def = TypeName string | ListOf type_def | NonNull type_def

fun getTypeName :: "type_def \<Rightarrow> string" where
  "getTypeName (TypeName s) = s"
| "getTypeName (ListOf t) = getTypeName t"
| "getTypeName (NonNull t) = getTypeName t"

text \<open>
  A resolve function is the library's \<^verbatim>\<open>defaultFieldResolver\<close>, a function supplied from
  outside (known here only by a label), or one of the two closures the source builds:
  \<^verbatim>\<open>resolve (obj, args, ctx, info) { return f(obj, args, ctx, { ...info, originalResolver }) }\<close>,
  written \<open>Wrapper f originalResolver\<close>. The wrapped \<open>f\<close> may be \<^verbatim>\<open>undefined\<close>.
\<close>

datatype resolve_fn = DefaultFieldResolver | Fn string | Wrapper "resolve_fn option" resolve_fn

text \<open>
  The invocation context \<^verbatim>\<open>info\<close>, and what calling a resolve function with it comes to:
  the outside function that finally runs and the \<^verbatim>\<open>info\<close> it receives (\<open>None\<close> when the
  closure calls \<^verbatim>\<open>undefined\<close>).
\<close>

record info =
  info_fieldName :: string
  originalResolver :: "resolve_fn option"

fun call :: "resolve_fn \<Rightarrow> info \<Rightarrow> (resolve_fn \<times> info) option" where
  "call DefaultFieldResolver i = Some (DefaultFieldResolver, i)"
| "call (Fn f) i = Some (Fn f, i)"
| "call (Wrapper None orig) i = None"
| "call (Wrapper (Some f) orig) i = call f (i\<lparr>originalResolver := Some orig\<rparr>)"

datatype json = JBool bool | JString string

type_synonym args = "(string \<times> type_def) list"

text \<open>Object spread \<^verbatim>\<open>{ ...a, ...b }\<close> on argument maps held as association lists.\<close>

definition spread :: "(string \<times> 'v) list \<Rightarrow> (string \<times> 'v) list \<Rightarrow> (string \<times> 'v) list" where
  "spread a b =
     map (\<lambda>(k, v). (k, case map_of b k of Some v' \<Rightarrow> v' | None \<Rightarrow> v)) a @
     filter (\<lambda>(k, v). k \<notin> set (map fst a)) b"

record field_config =
  fc_type :: type_def
  fc_args :: args
  fc_resolve :: "resolve_fn option"
  fc_extensions :: "(string \<times> json) list"

text \<open>A resolver registered on a type composer under a name (\<^verbatim>\<open>findOne\<close>, \<^verbatim>\<open>findMany\<close>).\<close>

record resolver =
  r_args :: args
  r_resolve :: "resolve_fn option"

datatype composer_kind = ObjectTypeComposer | UnionTypeComposer | OtherTypeComposer

record type_composer =
  tc_kind :: composer_kind
  tc_name :: string
  tc_fields :: "(string \<times> field_config) list"
  tc_interfaces :: "string list"
  tc_resolvers :: "(string \<times> resolver) list"
  tc_extensions :: "(string \<times> json) list"

text \<open>The schema composer is the registry of type composers by name.\<close>

type_synonym schema_composer = "(string \<times> type_composer) list"

subsection \<open>The composer operations the source calls\<close>

text \<open>
  Modelled from the spec: the type-composer and schema-composer methods (\<^verbatim>\<open>hasField\<close>,
  \<^verbatim>\<open>getFieldConfig\<close>, \<^verbatim>\<open>extendField\<close>, \<^verbatim>\<open>addFields\<close>, \<^verbatim>\<open>getOTC\<close>, \<^verbatim>\<open>getFieldTC\<close>,
  \<^verbatim>\<open>isFieldPlural\<close>, \<^verbatim>\<open>hasInterface\<close>, \<^verbatim>\<open>getResolver\<close>, \<^verbatim>\<open>getExtension\<close>) belong to the
  composition library, outside these sources. \<^verbatim>\<open>extendField\<close> lays the given keys over the
  field's previous configuration; \<^verbatim>\<open>getOTC\<close> fails for a name that is not registered as an
  Object type; a field is plural when its type is a list or a non-null list.
\<close>

definition js_truthy :: "json option \<Rightarrow> bool" where
  "js_truthy v = (case v of None \<Rightarrow> False | Some (JBool b) \<Rightarrow> b | Some (JString s) \<Rightarrow> s \<noteq> [])"

definition getExtension :: "type_composer \<Rightarrow> string \<Rightarrow> json option" where
  "getExtension tc k = map_of (tc_extensions tc) k"

definition hasField :: "type_composer \<Rightarrow> string \<Rightarrow> bool" where
  "hasField tc fieldName = (map_of (tc_fields tc) fieldName \<noteq> None)"

definition getFieldConfig :: "type_composer \<Rightarrow> string \<Rightarrow> field_config option" where
  "getFieldConfig tc fieldName = map_of (tc_fields tc) fieldName"

record partial_config =
  p_type :: "type_def option"
  p_args :: "args option"
  p_resolve :: "resolve_fn option"

definition extend_config :: "field_config \<Rightarrow> partial_config \<Rightarrow> field_config" where
  "extend_config prev p =
     prev\<lparr>fc_type := (case p_type p of Some t \<Rightarrow> t | None \<Rightarrow> fc_type prev),
          fc_args := (case p_args p of Some a \<Rightarrow> a | None \<Rightarrow> fc_args prev),
          fc_resolve := (case p_resolve p of Some r \<Rightarrow> Some r | None \<Rightarrow> fc_resolve prev)\<rparr>"

text \<open>Both call sites of \<^verbatim>\<open>extendField\<close> hold a field that exists.\<close>

definition extendField :: "type_composer \<Rightarrow> string \<Rightarrow> partial_config \<Rightarrow> type_composer" where
  "extendField tc fieldName p =
     tc\<lparr>tc_fields := map (\<lambda>(k, v). if k = fieldName then (k, extend_config v p) else (k, v))
                         (tc_fields tc)\<rparr>"

definition addFields :: "type_composer \<Rightarrow> string \<Rightarrow> field_config \<Rightarrow> type_composer" where
  "addFields tc fieldName fc =
     (if hasField tc fieldName
        then tc\<lparr>tc_fields := map (\<lambda>(k, v). if k = fieldName then (k, fc) else (k, v)) (tc_fields tc)\<rparr>
      else tc\<lparr>tc_fields := tc_fields tc @ [(fieldName, fc)]\<rparr>)"

definition getOTC :: "schema_composer \<Rightarrow> string \<Rightarrow> error + type_composer" where
  "getOTC sc typeName' =
     (case map_of sc typeName' of
        Some tc \<Rightarrow>
          (if tc_kind tc = ObjectTypeComposer then Inr tc
           else Inl (Error (''Cannot find ObjectTypeComposer with name '' @ typeName')))
      | None \<Rightarrow> Inl (Error (''Cannot find ObjectTypeComposer with name '' @ typeName')))"

definition set_tc :: "schema_composer \<Rightarrow> string \<Rightarrow> type_composer \<Rightarrow> schema_composer" where
  "set_tc sc typeName' tc = map (\<lambda>(k, v). if k = typeName' then (k, tc) else (k, v)) sc"

definition getFieldTC :: "schema_composer \<Rightarrow> field_config \<Rightarrow> error + type_composer" where
  "getFieldTC sc fc =
     (case map_of sc (getTypeName (fc_type fc)) of
        Some tc \<Rightarrow> Inr tc
      | None \<Rightarrow> Inl (Error (''Type with name '' @ getTypeName (fc_type fc) @ '' does not exists'')))"

definition isFieldPlural :: "field_config \<Rightarrow> bool" where
  "isFieldPlural fc =
     (case fc_type fc of ListOf t \<Rightarrow> True | NonNull (ListOf t) \<Rightarrow> True | _ \<Rightarrow> False)"

definition hasInterface :: "type_composer \<Rightarrow> string \<Rightarrow> bool" where
  "hasInterface tc iface = (iface \<in> set (tc_interfaces tc))"

definition getResolver :: "type_composer \<Rightarrow> string \<Rightarrow> error + resolver" where
  "getResolver tc resolverName =
     (case map_of (tc_resolvers tc) resolverName of
        Some r \<Rightarrow> Inr r
      | None \<Rightarrow> Inl (Error (''Type '' @ tc_name tc @ '' does not have resolver with name ''
                              @ resolverName)))"

subsection \<open>\<^verbatim>\<open>createType\<close>\<close>

text \<open>
  A declarative type descriptor \<^verbatim>\<open>{ type, options }\<close>. A field of \<^verbatim>\<open>options.fields\<close> is a
  bare type or a plain object with its own \<^verbatim>\<open>options\<close> block of extensions.
\<close>

datatype CreatedGraphQLType = Object | Union | Unknown

datatype field_def = Bare type_def | Plain type_def "(string \<times> json) list option"

record type_options =
  to_name :: "string option"
  to_fields :: "(string \<times> field_def) list"
  to_interfaces :: "string list"
  to_options :: "(string \<times> json) list option"

record created_type =
  ct_type :: CreatedGraphQLType
  ct_options :: type_options

text \<open>\<^verbatim>\<open>path.join(' ')\<close>: an \<^verbatim>\<open>undefined\<close> element is joined as the empty string.\<close>

fun join :: "string option list \<Rightarrow> string" where
  "join [] = []"
| "join [x] = (case x of None \<Rightarrow> [] | Some s \<Rightarrow> s)"
| "join (x # y # ys) = (case x of None \<Rightarrow> [] | Some s \<Rightarrow> s) @ '' '' @ join (y # ys)"

definition field_type :: "field_def \<Rightarrow> type_def" where
  "field_type fd = (case fd of Bare t \<Rightarrow> t | Plain t opts \<Rightarrow> t)"

text \<open>
  \<^verbatim>\<open>ObjectTypeComposer.createTemp(options)\<close> followed by the two extension steps: the type's
  extensions are \<^verbatim>\<open>options.options || {}\<close>, and each field's are the \<^verbatim>\<open>options\<close> block of a
  plain-object field definition (\<^verbatim>\<open>{}\<close> for a bare one).
\<close>

definition field_extensions :: "field_def \<Rightarrow> (string \<times> json) list" where
  "field_extensions fd =
     (case fd of Bare t \<Rightarrow> [] | Plain t opts \<Rightarrow> (case opts of None \<Rightarrow> [] | Some e \<Rightarrow> e))"

definition createTemp :: "composer_kind \<Rightarrow> string \<Rightarrow> type_options \<Rightarrow> type_composer" where
  "createTemp kind name' opts =
     \<lparr>tc_kind = kind, tc_name = name',
      tc_fields = (if kind = ObjectTypeComposer
                   then map (\<lambda>(k, fd). (k, \<lparr>fc_type = field_type fd, fc_args = [],
                                              fc_resolve = None, fc_extensions = []\<rparr>)) (to_fields opts)
                   else []),
      tc_interfaces = (if kind = ObjectTypeComposer then to_interfaces opts else []),
      tc_resolvers = [], tc_extensions = []\<rparr>"

definition extendFieldExtensions ::
  "type_composer \<Rightarrow> string \<Rightarrow> (string \<times> json) list \<Rightarrow> type_composer" where
  "extendFieldExtensions tc fieldName e =
     tc\<lparr>tc_fields := map (\<lambda>(k, v). if k = fieldName
                                     then (k, v\<lparr>fc_extensions := spread (fc_extensions v) e\<rparr>)
                                     else (k, v)) (tc_fields tc)\<rparr>"

fun extend_all_fields :: "type_options \<Rightarrow> type_composer \<Rightarrow> string list \<Rightarrow> type_composer" where
  "extend_all_fields opts tc [] = tc"
| "extend_all_fields opts tc (fieldName # rest) =
     (let fieldConfig = (case map_of (to_fields opts) fieldName of
                           Some fd \<Rightarrow> field_extensions fd | None \<Rightarrow> [])
      in extend_all_fields opts (extendFieldExtensions tc fieldName fieldConfig) rest)"

definition createType ::
  "(string \<Rightarrow> string) \<Rightarrow> created_type \<Rightarrow> string option list option \<Rightarrow>
   error + type_composer option" where
  "createType createTypeName type' path_arg =
     (let path = (case path_arg of None \<Rightarrow> [to_name (ct_options type')] | Some p \<Rightarrow> p) in
      if \<not> truthy (to_name (ct_options type')) \<and> length path = 1
        then Inl (Error ''Missing required type name.'')
      else
        (let name' = (if truthy (to_name (ct_options type')) then show_id (to_name (ct_options type'))
                      else createTypeName (join path));
             options = (ct_options type')\<lparr>to_name := Some name'\<rparr>
         in case ct_type type' of
              Object \<Rightarrow>
                (let typeComposer = createTemp ObjectTypeComposer name' options;
                     typeComposer = typeComposer\<lparr>tc_extensions :=
                        spread (tc_extensions typeComposer)
                          (case to_options options of None \<Rightarrow> [] | Some e \<Rightarrow> e)\<rparr>
                 in Inr (Some (extend_all_fields (ct_options type') typeComposer
                                 (map fst (tc_fields typeComposer)))))
            | Union \<Rightarrow> Inr (Some (createTemp UnionTypeComposer name' options))
            | Unknown \<Rightarrow> Inr None))"

subsection \<open>\<^verbatim>\<open>processObjectFields\<close> and \<^verbatim>\<open>getFieldResolver\<close>\<close>

text \<open>
  \<^verbatim>\<open>scalarTypeResolvers\<close>, the static table of post-processors by type name, is a parameter.
\<close>

definition getFieldResolver ::
  "(string \<Rightarrow> resolver option) \<Rightarrow> schema_composer \<Rightarrow> type_composer \<Rightarrow> string \<Rightarrow>
   error + resolver option" where
  "getFieldResolver scalarTypeResolvers sc typeComposer fieldName =
     (case getFieldConfig typeComposer fieldName of
        None \<Rightarrow> Inl (Error (''Field '' @ fieldName @ '' does not exist''))
      | Some fc \<Rightarrow>
          (case getFieldTC sc fc of
             Inl e \<Rightarrow> Inl e
           | Inr fieldComposer \<Rightarrow>
               (if tc_kind fieldComposer = ObjectTypeComposer \<and> hasInterface fieldComposer ''Node''
                  then
                    (let isPlural = isFieldPlural fc;
                         resolverName = (if isPlural then ''findMany'' else ''findOne'')
                     in case getResolver fieldComposer resolverName of
                          Inl e \<Rightarrow> Inl e
                        | Inr r \<Rightarrow> Inr (Some r))
                else Inr (scalarTypeResolvers (tc_name fieldComposer)))))"

fun process_fields ::
  "(string \<Rightarrow> resolver option) \<Rightarrow> schema_composer \<Rightarrow> type_composer \<Rightarrow> string list \<Rightarrow>
   error + type_composer" where
  "process_fields scalarTypeResolvers sc typeComposer [] = Inr typeComposer"
| "process_fields scalarTypeResolvers sc typeComposer (fieldName # rest) =
     (case getFieldConfig typeComposer fieldName of
        None \<Rightarrow> Inl (Error (''Field '' @ fieldName @ '' does not exist''))
      | Some fieldConfig \<Rightarrow>
          (case getFieldResolver scalarTypeResolvers sc typeComposer fieldName of
             Inl e \<Rightarrow> Inl e
           | Inr None \<Rightarrow> process_fields scalarTypeResolvers sc typeComposer rest
           | Inr (Some resolver) \<Rightarrow>
               (let originalResolver = (case r_resolve resolver of
                                          Some f \<Rightarrow> f | None \<Rightarrow> DefaultFieldResolver);
                    resolve = (case fc_resolve fieldConfig of
                                 Some f \<Rightarrow> f | None \<Rightarrow> originalResolver)
                in process_fields scalarTypeResolvers sc
                     (extendField typeComposer fieldName
                        \<lparr>p_type = None,
                         p_args = Some (spread (r_args resolver) (fc_args fieldConfig)),
                         p_resolve = Some (Wrapper (Some resolve) originalResolver)\<rparr>)
                     rest)))"

definition processObjectFields ::
  "(string \<Rightarrow> resolver option) \<Rightarrow> schema_composer \<Rightarrow> type_composer \<Rightarrow>
   error + type_composer" where
  "processObjectFields scalarTypeResolvers sc typeComposer =
     (let isUserDefined = getExtension typeComposer ''isUserDefined'' in
      if tc_kind typeComposer \<noteq> ObjectTypeComposer then Inr typeComposer
      else if tc_name typeComposer = ''Query'' then Inr typeComposer
      else if \<not> js_truthy isUserDefined then Inr typeComposer
      else process_fields scalarTypeResolvers sc typeComposer (map fst (tc_fields typeComposer)))"

subsection \<open>\<^verbatim>\<open>addResolvers\<close>\<close>

text \<open>
  One entry of a resolver overlay, \<^verbatim>\<open>{ type, args, resolve }\<close>, each key possibly absent.
  A \<^verbatim>\<open>type\<close> that is absent or the empty string is falsy.
\<close>

record field_options =
  fo_type :: "type_def option"
  fo_args :: "args option"
  fo_resolve :: "resolve_fn option"

definition truthy_type :: "type_def option \<Rightarrow> bool" where
  "truthy_type t = (case t of None \<Rightarrow> False | Some (TypeName s) \<Rightarrow> s \<noteq> [] | Some _ \<Rightarrow> True)"

definition new_field :: "field_options \<Rightarrow> type_def \<Rightarrow> field_config" where
  "new_field fo t =
     \<lparr>fc_type = t, fc_args = (case fo_args fo of Some a \<Rightarrow> a | None \<Rightarrow> []),
      fc_resolve = fo_resolve fo, fc_extensions = []\<rparr>"

fun addResolvers_fields ::
  "string \<Rightarrow> type_composer \<Rightarrow> (string \<times> field_options) list \<Rightarrow> error + type_composer" where
  "addResolvers_fields typeName' typeComposer [] = Inr typeComposer"
| "addResolvers_fields typeName' typeComposer ((fieldName, fieldOptions) # rest) =
     (case getFieldConfig typeComposer fieldName of
        Some field \<Rightarrow>
          (let originalResolver = (case fc_resolve field of
                                     Some f \<Rightarrow> f | None \<Rightarrow> DefaultFieldResolver)
           in addResolvers_fields typeName'
                (extendField typeComposer fieldName
                   \<lparr>p_type = Some (if truthy_type (fo_type fieldOptions)
                                    then the (fo_type fieldOptions) else fc_type field),
                    p_args = Some (case fo_args fieldOptions of
                                     Some a \<Rightarrow> a | None \<Rightarrow> fc_args field),
                    p_resolve = Some (Wrapper (fo_resolve fieldOptions) originalResolver)\<rparr>)
                rest)
      | None \<Rightarrow>
          (if \<not> truthy_type (fo_type fieldOptions)
             then Inl (Error (typeName' @ ''.'' @ fieldName @ '' must have a 'type' property.''))
           else addResolvers_fields typeName'
                  (addFields typeComposer fieldName
                     (new_field fieldOptions (the (fo_type fieldOptions))))
                  rest))"

fun addResolvers ::
  "schema_composer \<Rightarrow> (string \<times> (string \<times> field_options) list) list \<Rightarrow>
   error + schema_composer" where
  "addResolvers sc [] = Inr sc"
| "addResolvers sc ((typeName', fields') # rest) =
     (case getOTC sc typeName' of
        Inl e \<Rightarrow> Inl e
      | Inr typeComposer \<Rightarrow>
          (case addResolvers_fields typeName' typeComposer fields' of
             Inl e \<Rightarrow> Inl e
           | Inr typeComposer' \<Rightarrow> addResolvers (set_tc sc typeName' typeComposer') rest))"

section \<open>Auxiliary notions for the proofs\<close>

text \<open>
  The partial configuration that \<^verbatim>\<open>processObjectFields\<close> passes to \<^verbatim>\<open>extendField\<close> for a
  field with previous configuration \<open>fc\<close> and selected resolver \<open>r\<close>.
\<close>

definition wiring :: "resolver \<Rightarrow> field_config \<Rightarrow> partial_config" where
  "wiring r fc =
     \<lparr>p_type = None, p_args = Some (spread (r_args r) (fc_args fc)),
      p_resolve = Some (Wrapper
        (Some (case fc_resolve fc of Some f \<Rightarrow> f
               | None \<Rightarrow> (case r_resolve r of Some f \<Rightarrow> f | None \<Rightarrow> DefaultFieldResolver)))
        (case r_resolve r of Some f \<Rightarrow> f | None \<Rightarrow> DefaultFieldResolver))\<rparr>"

text \<open>
  The partial configuration that \<^verbatim>\<open>addResolvers\<close> passes to \<^verbatim>\<open>extendField\<close> for an overlay
  entry \<open>fo\<close> on a field with previous configuration \<open>field\<close>.
\<close>

definition overlay :: "field_options \<Rightarrow> field_config \<Rightarrow> partial_config" where
  "overlay fo field =
     \<lparr>p_type = Some (if truthy_type (fo_type fo) then the (fo_type fo) else fc_type field),
      p_args = Some (case fo_args fo of Some a \<Rightarrow> a | None \<Rightarrow> fc_args field),
      p_resolve = Some (Wrapper (fo_resolve fo)
                          (case fc_resolve field of Some f \<Rightarrow> f | None \<Rightarrow> DefaultFieldResolver))\<rparr>"

text \<open>The configuration of a field after an overlay entry, given the field's prior state.\<close>

definition overlaid :: "field_config option \<Rightarrow> field_options \<Rightarrow> field_config" where
  "overlaid prior fo =
     (case prior of
        Some field \<Rightarrow> extend_config field (overlay fo field)
      | None \<Rightarrow> new_field fo (the (fo_type fo)))"

text \<open>The configuration of field \<open>f\<close> of type \<open>tn\<close> in the outcome of a registry operation.\<close>

definition field_of :: "error + schema_composer \<Rightarrow> string \<Rightarrow> string \<Rightarrow> field_config option" where
  "field_of r tn f =
     (case r of
        Inl e \<Rightarrow> None
      | Inr sc \<Rightarrow> (case map_of sc tn of None \<Rightarrow> None | Some tc \<Rightarrow> getFieldConfig tc f))"

section \<open>Example stores and registries\<close>

text \<open>
  Concrete inputs on which the theorems below are exercised: a store of two posts built by
  \<^verbatim>\<open>addNode\<close> with an identity normaliser and an accepting or vetoing hook, and a registry
  with a Node-capable type \<^verbatim>\<open>Author\<close> and a user-defined type \<^verbatim>\<open>Post\<close>.
\<close>

definition store0 :: ContentType where
  "store0 = \<lparr>collection_of = \<lparr>data = [], maxId = 0\<rparr>, typeName = ''Post'', emitted = [], warned = []\<rparr>"

definition ex_options :: "string option \<Rightarrow> string option \<Rightarrow> string \<Rightarrow> node" where
  "ex_options i u t = \<lparr>node_id = i, node_uid = u, node_loki = None, node_fields = [(''title'', t)]\<rparr>"

definition pass :: "node \<Rightarrow> ContentType \<Rightarrow> node" where "pass raw ct = raw"
definition accept :: "node \<Rightarrow> ContentType \<Rightarrow> node option" where "accept options ct = Some options"
definition veto :: "node \<Rightarrow> ContentType \<Rightarrow> node option" where "veto options ct = None"

definition store1 :: ContentType where
  "store1 = snd (addNode pass accept store0 (ex_options (Some ''a1'') (Some ''u1'') ''first''))"
definition store2 :: ContentType where
  "store2 = snd (addNode pass accept store1 (ex_options (Some ''a2'') (Some ''u2'') ''second''))"



definition ex_author :: type_composer where
  "ex_author =
     \<lparr>tc_kind = ObjectTypeComposer, tc_name = ''Author'',
      tc_fields = [(''name'', \<lparr>fc_type = TypeName ''String'', fc_args = [], fc_resolve = None,
                               fc_extensions = []\<rparr>)],
      tc_interfaces = [''Node''],
      tc_resolvers =
        [(''findOne'', \<lparr>r_args = [(''id'', TypeName ''ID'')], r_resolve = Some (Fn ''findOneAuthor'')\<rparr>),
         (''findMany'', \<lparr>r_args = [(''sortBy'', TypeName ''String''), (''limit'', TypeName ''Int'')],
                         r_resolve = Some (Fn ''findManyAuthor'')\<rparr>)],
      tc_extensions = []\<rparr>"

definition ex_post :: type_composer where
  "ex_post =
     \<lparr>tc_kind = ObjectTypeComposer, tc_name = ''Post'',
      tc_fields =
        [(''title'', \<lparr>fc_type = TypeName ''String'', fc_args = [(''format'', TypeName ''String'')],
                      fc_resolve = Some (Fn ''titleResolver''), fc_extensions = []\<rparr>),
         (''author'', \<lparr>fc_type = TypeName ''Author'', fc_args = [], fc_resolve = None,
                       fc_extensions = []\<rparr>),
         (''editors'', \<lparr>fc_type = NonNull (ListOf (TypeName ''Author'')),
                        fc_args = [(''limit'', TypeName ''Float'')],
                        fc_resolve = Some (Fn ''editorsResolver''), fc_extensions = []\<rparr>)],
      tc_interfaces = [], tc_resolvers = [],
      tc_extensions = [(''isUserDefined'', JBool True)]\<rparr>"

definition ex_schema :: schema_composer where
  "ex_schema =
     [(''Query'', \<lparr>tc_kind = ObjectTypeComposer, tc_name = ''Query'', tc_fields = [],
                   tc_interfaces = [], tc_resolvers = [], tc_extensions = []\<rparr>),
      (''String'', \<lparr>tc_kind = OtherTypeComposer, tc_name = ''String'', tc_fields = [],
                    tc_interfaces = [], tc_resolvers = [], tc_extensions = []\<rparr>),
      (''Author'', ex_author), (''Post'', ex_post)]"

definition no_scalar_resolvers :: "string \<Rightarrow> resolver option" where
  "no_scalar_resolvers name' = None"

definition ex_overlay :: field_options where
  "ex_overlay = \<lparr>fo_type = Some (TypeName ''Int''), fo_args = Some [(''limit'', TypeName ''Int'')],
                  fo_resolve = Some (Fn ''custom'')\<rparr>"

definition ex_type :: created_type where
  "ex_type = \<lparr>ct_type = Object,
     ct_options = \<lparr>to_name = None,
                   to_fields = [(''title'', Bare (TypeName ''String'')),
                                (''tags'', Plain (ListOf (TypeName ''String'')) (Some [(''proxy'', JString ''tag_list'')]))],
                   to_interfaces = [''Node''], to_options = Some [(''infer'', JBool True)]\<rparr>\<rparr>"

definition ex_wired :: "error + type_composer" where
  "ex_wired = processObjectFields no_scalar_resolvers ex_schema ex_post"

definition ex_overlays :: "(string \<times> (string \<times> field_options) list) list" where
  "ex_overlays =
     [(''Author'', [(''name'', \<lparr>fo_type = None, fo_args = None, fo_resolve = Some (Fn ''upper'')\<rparr>)]),
      (''Post'', [(''title'', ex_overlay), (''extra'', ex_overlay)])]"

section \<open>Properties of the node store\<close>

subsection \<open>Auxiliary facts about lists and the collection\<close>

lemma position_Some:
  "position l ds = Some p \<Longrightarrow> p < length ds \<and> node_loki (ds ! p) = Some l"
  by (induction ds arbitrary: p) (auto split: if_splits)

lemma distinct_map_nth_eq:
  "distinct (map f ds) \<Longrightarrow> p < length ds \<Longrightarrow> d \<in> set ds \<Longrightarrow> f (ds ! p) = f d \<Longrightarrow> ds ! p = d"
  by (simp add: distinct_map inj_on_def)

lemma find_Some_mem: "List.find P xs = Some x \<Longrightarrow> x \<in> set xs \<and> P x"
  by (auto simp: find_Some_iff)

lemma find_unique:
  "x \<in> set xs \<Longrightarrow> P x \<Longrightarrow> \<forall>y\<in>set xs. P y \<longrightarrow> y = x \<Longrightarrow> List.find P xs = Some x"
proof (induction xs)
  case Nil
  then show ?case by simp
next
  case (Cons a xs)
  show ?case
  proof (cases "P a")
    case True
    with Cons.prems(3) have "a = x" by simp
    with True show ?thesis by simp
  next
    case False
    with Cons.prems have "x \<in> set xs" by auto
    moreover from Cons.prems(3) have "\<forall>y\<in>set xs. P y \<longrightarrow> y = x" by simp
    ultimately have "List.find P xs = Some x" using Cons.IH Cons.prems(2) by blast
    with False show ?thesis by simp
  qed
qed

lemma set_update_cases:
  "y \<in> set (xs[p := n]) \<Longrightarrow> y = n \<or> (\<exists>q. q < length xs \<and> q \<noteq> p \<and> y = xs ! q)"
proof -
  assume "y \<in> set (xs[p := n])"
  then obtain i where i: "i < length xs" "xs[p := n] ! i = y"
    by (auto simp: in_set_conv_nth)
  show ?thesis
  proof (cases "i = p")
    case True
    with i show ?thesis by simp
  next
    case False
    with i have "y = xs ! i" by simp
    with i False show ?thesis by blast
  qed
qed

lemma has_id_iff: "has_id ds v \<longleftrightarrow> v \<noteq> None \<and> (\<exists>d\<in>set ds. node_id d = v)"
  by (auto simp: has_id_def list_ex_iff)

lemma coll_update_Inr:
  assumes "coll_update c n = Inr c'"
  shows "\<exists>l p. node_loki n = Some l \<and> position l (data c) = Some p \<and>
           c' = c\<lparr>data := (data c)[p := n]\<rparr> \<and>
           \<not> (node_id (data c ! p) \<noteq> node_id n \<and> has_id (data c) (node_id n))"
  using assms by (auto simp: coll_update_def split: option.splits if_splits)

lemma updateNode_Some:
  assumes "updateNode nrm hook ct raw = (Inr (Some n), ct')"
  shows "\<exists>old node0 c'. getNode ct (Obj (lookup_query (nrm raw ct))) = Some old \<and>
           hook (nrm raw ct) ct = Some node0 \<and>
           n = node0\<lparr>node_id := (if truthy (node_id (nrm raw ct)) then node_id (nrm raw ct)
                                  else node_id old),
                     node_loki := node_loki old\<rparr> \<and>
           coll_update (collection_of ct) n = Inr c' \<and>
           ct' = ct\<lparr>collection_of := c', emitted := emitted ct @ [Update n old]\<rparr>"
proof (cases "getNode ct (Obj (lookup_query (nrm raw ct)))")
  case None
  with assms show ?thesis by (simp add: updateNode_def Let_def)
next
  case old: (Some old)
  show ?thesis
  proof (cases "hook (nrm raw ct) ct")
    case None
    with old assms show ?thesis
      by (simp add: updateNode_def removeNode_def Let_def split: option.splits)
  next
    case hk: (Some node0)
    let ?n = "node0\<lparr>node_id := (if truthy (node_id (nrm raw ct)) then node_id (nrm raw ct)
                                  else node_id old),
                     node_loki := node_loki old\<rparr>"
    show ?thesis
    proof (cases "coll_update (collection_of ct) ?n")
      case (Inl msg)
      with old hk assms show ?thesis by (simp add: updateNode_def Let_def)
    next
      case (Inr c')
      with old hk assms show ?thesis by (auto simp: updateNode_def Let_def)
    qed
  qed
qed

lemma find_append_last:
  "\<forall>y\<in>set xs. \<not> P y \<Longrightarrow> P x \<Longrightarrow> List.find P (xs @ [x]) = Some x"
  by (induction xs) simp_all


lemma coll_insert_Inr:
  assumes "coll_insert c n = Inr (n', c')"
  shows "node_loki n = None \<and> \<not> has_id (data c) (node_id n) \<and>
         n' = n\<lparr>node_loki := Some (Suc (maxId c))\<rparr> \<and>
         c' = c\<lparr>data := data c @ [n'], maxId := Suc (maxId c)\<rparr>"
  using assms by (auto simp: coll_insert_def Let_def split: if_splits)

lemma addNode_Some:
  assumes "addNode nrm hook ct raw = (Inr (Some n), ct')"
  shows "\<exists>node c'. hook (nrm raw ct) ct = Some node \<and>
           coll_insert (collection_of ct) node = Inr (n, c') \<and>
           ct' = ct\<lparr>collection_of := c', emitted := emitted ct @ [Add n]\<rparr>"
proof (cases "hook (nrm raw ct) ct")
  case None
  with assms show ?thesis by (simp add: addNode_def Let_def)
next
  case (Some node)
  show ?thesis
  proof (cases "coll_insert (collection_of ct) node")
    case (Inl msg)
    with Some assms show ?thesis by (simp add: addNode_def Let_def)
  next
    case (Inr r)
    obtain n' c' where r: "r = (n', c')" by (cases r)
    with Some Inr assms show ?thesis by (auto simp: addNode_def Let_def)
  qed
qed

subsection \<open>Update, removal and insertion\<close>

text \<open>
  Claim C3. On a store that satisfies its invariants, an \<^verbatim>\<open>updateNode\<close> that returns a node
  found a prior node, kept that node's row handle \<^verbatim>\<open>$loki\<close>, took the id from the normalised
  input when that is non-empty and from the prior node otherwise, replaced the prior node in
  place (so the number of nodes is unchanged), made the node with the hook's field content
  the answer of \<^verbatim>\<open>getNode\<close> for its id, and emitted exactly one event,
  \<^verbatim>\<open>update(node, oldNode)\<close>.
\<close>

theorem updateNode_success:
  assumes ids: "unique_ids ct" and handles: "unique_handles ct"
    and upd: "updateNode nrm hook ct raw = (Inr (Some n), ct')"
  shows "\<exists>old p node0.
           getNode ct (Obj (lookup_query (nrm raw ct))) = Some old \<and>
           hook (nrm raw ct) ct = Some node0 \<and>
           p < length (data_of ct) \<and> data_of ct ! p = old \<and>
           data_of ct' = (data_of ct)[p := n] \<and>
           node_loki n = node_loki old \<and>
           node_id n = (if truthy (node_id (nrm raw ct)) then node_id (nrm raw ct)
                        else node_id old) \<and>
           node_fields n = node_fields node0 \<and>
           length (data_of ct') = length (data_of ct) \<and>
           getNode ct' (Obj (QId (node_id n))) = Some n \<and>
           emitted ct' = emitted ct @ [Update n old]"
proof -
  let ?ds = "data_of ct"
  from updateNode_Some [OF upd] obtain old node0 c' where
    old: "getNode ct (Obj (lookup_query (nrm raw ct))) = Some old" and
    hk: "hook (nrm raw ct) ct = Some node0" and
    n: "n = node0\<lparr>node_id := (if truthy (node_id (nrm raw ct)) then node_id (nrm raw ct)
                                  else node_id old),
                     node_loki := node_loki old\<rparr>" and
    cu: "coll_update (collection_of ct) n = Inr c'" and
    ct': "ct' = ct\<lparr>collection_of := c', emitted := emitted ct @ [Update n old]\<rparr>"
    by blast
  from old have old_in: "old \<in> set ?ds"
    by (auto simp: getNode_def findOne_def data_of_def dest: find_Some_mem)
  from coll_update_Inr [OF cu] obtain l p where
    l: "node_loki n = Some l" and p: "position l ?ds = Some p" and
    c': "c' = (collection_of ct)\<lparr>data := ?ds[p := n]\<rparr>" and
    uniq: "\<not> (node_id (?ds ! p) \<noteq> node_id n \<and> has_id ?ds (node_id n))"
    by (auto simp: data_of_def)
  from position_Some [OF p] have plt: "p < length ?ds" and pl: "node_loki (?ds ! p) = Some l"
    by auto
  have nl: "node_loki n = node_loki old" using n by simp
  from ids handles have dl: "distinct (map node_loki ?ds)" and di: "distinct (map node_id ?ds)"
    and def: "\<forall>d\<in>set ?ds. node_id d \<noteq> None"
    by (auto simp: unique_ids_def unique_handles_def list_all_iff)
  have at: "?ds ! p = old"
    using distinct_map_nth_eq [OF dl plt old_in] pl l nl by simp
  have data': "data_of ct' = ?ds[p := n]" using ct' c' by (simp add: data_of_def)
  have nid: "node_id n = (if truthy (node_id (nrm raw ct)) then node_id (nrm raw ct)
                        else node_id old)" using n by simp
  have nid_def: "node_id n \<noteq> None"
    using nid def old_in by (auto simp: truthy_def split: option.splits if_splits)
  have only: "\<forall>y\<in>set (?ds[p := n]). matches (QId (node_id n)) y \<longrightarrow> y = n"
  proof (intro ballI impI)
    fix y assume y: "y \<in> set (?ds[p := n])" and "matches (QId (node_id n)) y"
    then have yid: "node_id y = node_id n" by simp
    from set_update_cases [OF y] show "y = n"
    proof
      assume "y = n" then show ?thesis .
    next
      assume "\<exists>q. q < length ?ds \<and> q \<noteq> p \<and> y = ?ds ! q"
      then obtain q where q: "q < length ?ds" "q \<noteq> p" "y = ?ds ! q" by blast
      then have yin: "y \<in> set ?ds" by simp
      then have has: "has_id ?ds (node_id n)" using yid nid_def by (auto simp: has_id_iff)
      with uniq have "node_id (?ds ! p) = node_id n" by blast
      then have "node_id (?ds ! p) = node_id (?ds ! q)" using q yid by simp
      then have "p = q"
        using nth_eq_iff_index_eq [OF di, of p q] plt q(1) by simp
      with q show ?thesis by simp
    qed
  qed
  have nin: "n \<in> set (?ds[p := n])" using plt by (simp add: set_update_memI)
  have m: "matches (QId (node_id n)) n" by simp
  have "List.find (matches (QId (node_id n))) (data_of ct') = Some n"
    unfolding data' by (rule find_unique [OF nin m only])
  then have vis: "getNode ct' (Obj (QId (node_id n))) = Some n"
    by (simp add: getNode_def findOne_def to_query_def data_of_def)
  have nf: "node_fields n = node_fields node0" using n by simp
  have em: "emitted ct' = emitted ct @ [Update n old]" using ct' by simp
  have len: "length (data_of ct') = length (data_of ct)" using data' by simp
  from old hk plt at data' nl nid nf len vis em show ?thesis by blast
qed

theorem updateNode_success_witness:
  "unique_ids store2 \<and> unique_handles store2 \<and>
   fst (updateNode pass accept store2 (ex_options (Some ''a1'') (Some ''u1'') ''changed'')) =
     Inr (Some \<lparr>node_id = Some ''a1'', node_uid = Some ''u1'', node_loki = Some 1,
                node_fields = [(''title'', ''changed'')]\<rparr>) \<and>
   length (data_of (snd (updateNode pass accept store2 (ex_options (Some ''a1'') (Some ''u1'') ''changed'')))) =
     length (data_of store2) \<and>
   getNode (snd (updateNode pass accept store2 (ex_options (Some ''a1'') (Some ''u1'') ''changed''))) (Obj (QId (Some ''a1''))) =
     Some \<lparr>node_id = Some ''a1'', node_uid = Some ''u1'', node_loki = Some 1,
           node_fields = [(''title'', ''changed'')]\<rparr>"
proof -
  let ?n = "\<lparr>node_id = Some ''a1'', node_uid = Some ''u1'', node_loki = Some 1,
                node_fields = [(''title'', ''changed'')]\<rparr>"
  let ?r = "updateNode pass accept store2 (ex_options (Some ''a1'') (Some ''u1'') ''changed'')"
  have w: "unique_ids store2" and w': "unique_handles store2" by code_simp+
  have f: "fst ?r = Inr (Some ?n)" by code_simp
  then have u: "?r = (Inr (Some ?n), snd ?r)" by (simp add: prod_eq_iff)
  from updateNode_success [of store2 pass accept "ex_options (Some ''a1'') (Some ''u1'') ''changed''" ?n "snd ?r", OF w w' u] have
    "length (data_of (snd ?r)) = length (data_of store2)" and
    "getNode (snd ?r) (Obj (QId (node_id ?n))) = Some ?n" by blast+
  with w w' f show ?thesis by simp
qed

text \<open>
  Claim C4, as stated, fails: \<^verbatim>\<open>updateNode\<close> looks the prior node up by \<^verbatim>\<open>$uid\<close> when the
  normalised input carries one, so an input whose id is not in the collection but whose
  \<^verbatim>\<open>$uid\<close> is updates that node (giving it the new id) instead of failing.
\<close>

theorem updateNode_absent_id_counterexample:
  "getNode store2 (Str ''zz'') = None \<and>
   fst (updateNode pass accept store2 (ex_options (Some ''zz'') (Some ''u1'') ''moved'')) =
     Inr (Some \<lparr>node_id = Some ''zz'', node_uid = Some ''u1'', node_loki = Some 1,
                node_fields = [(''title'', ''moved'')]\<rparr>) \<and>
   data_of (snd (updateNode pass accept store2 (ex_options (Some ''zz'') (Some ''u1'') ''moved''))) \<noteq>
     data_of store2 \<and>
   emitted (snd (updateNode pass accept store2 (ex_options (Some ''zz'') (Some ''u1'') ''moved''))) \<noteq>
     emitted store2"
  by code_simp

text \<open>
  Claim C4, amended. \<^verbatim>\<open>updateNode\<close> throws, and leaves the content type (nodes, events,
  warnings) exactly as it was, whenever the key it looks up matches no node: the \<^verbatim>\<open>$uid\<close> of
  the normalised input when that is non-empty, its id otherwise; in particular when the input
  carries no \<^verbatim>\<open>$uid\<close> and its id is not in the collection. \<^verbatim>\<open>removeNode\<close> with an id that is
  not in the collection throws (a \<^verbatim>\<open>TypeError\<close>, from reading \<^verbatim>\<open>$uid\<close> of \<^verbatim>\<open>null\<close>) and
  leaves the content type as it was.
\<close>

theorem absent_target_fatal:
  "(getNode ct (Obj (lookup_query (nrm raw ct))) = None \<longrightarrow>
      updateNode nrm hook ct raw =
        (Inl (Error (''Could not find node to update with id: '' @ show_id (node_id (nrm raw ct)))), ct)) \<and>
   (\<not> truthy (node_uid (nrm raw ct)) \<and> getNode ct (Obj (QId (node_id (nrm raw ct)))) = None \<longrightarrow>
      updateNode nrm hook ct raw =
        (Inl (Error (''Could not find node to update with id: '' @ show_id (node_id (nrm raw ct)))), ct)) \<and>
   (getNode ct (Str i) = None \<longrightarrow> removeNode ct (Str i) = (Inl TypeError, ct))"
  by (simp add: updateNode_def removeNode_def getNode_def lookup_query_def Let_def)

theorem absent_target_fatal_witness:
  "getNode store2 (Obj (lookup_query (pass (ex_options (Some ''zz'') None ''x'') store2))) = None \<and>
   updateNode pass accept store2 (ex_options (Some ''zz'') None ''x'') =
     (Inl (Error ''Could not find node to update with id: zz''), store2) \<and>
   getNode store2 (Str ''zz'') = None \<and>
   removeNode store2 (Str ''zz'') = (Inl TypeError, store2)"
proof -
  let ?raw = "ex_options (Some ''zz'') None ''x''"
  have a: "getNode store2 (Obj (lookup_query (pass ?raw store2))) = None" by code_simp
  have b: "getNode store2 (Str ''zz'') = None" by code_simp
  have s: "show_id (node_id (pass ?raw store2)) = ''zz''" by code_simp
  from absent_target_fatal [of store2 pass ?raw accept "''zz''"] a b s show ?thesis by simp
qed




text \<open>
  Claim C6. \<^verbatim>\<open>addNode\<close> returns \<^verbatim>\<open>null\<close> and leaves the content type untouched when the hook
  chain returns a falsy value. When the collection rejects the insert, and likewise when it
  rejects the update in \<^verbatim>\<open>updateNode\<close> after the hook chain has passed, the call returns
  \<^verbatim>\<open>null\<close>, the collection and the emitted events are as before, and the only change is one
  warning carrying the collection's message and tagged with the content type's name.
\<close>

theorem rejected_operations:
  "(hook (nrm raw ct) ct = None \<longrightarrow> addNode nrm hook ct raw = (Inr None, ct)) \<and>
   (\<forall>node msg. hook (nrm raw ct) ct = Some node \<and>
        coll_insert (collection_of ct) node = Inl msg \<longrightarrow>
        addNode nrm hook ct raw =
          (Inr None, ct\<lparr>warned := warned ct @ [(''Failed to add node: '' @ msg, typeName ct)]\<rparr>)) \<and>
   (\<forall>old node msg. getNode ct (Obj (lookup_query (nrm raw ct))) = Some old \<and>
        hook (nrm raw ct) ct = Some node \<and>
        coll_update (collection_of ct)
          (node\<lparr>node_id := (if truthy (node_id (nrm raw ct)) then node_id (nrm raw ct)
                              else node_id old),
                 node_loki := node_loki old\<rparr>) = Inl msg \<longrightarrow>
        updateNode nrm hook ct raw =
          (Inr None, ct\<lparr>warned := warned ct @ [(''Failed to update node: '' @ msg, typeName ct)]\<rparr>))"
  by (simp add: addNode_def updateNode_def Let_def)

theorem rejected_operations_witness:
  "addNode pass veto store2 (ex_options (Some ''a3'') (Some ''u3'') ''third'') = (Inr None, store2) \<and>
   addNode pass accept store2 (ex_options (Some ''a1'') (Some ''u3'') ''dup'') =
     (Inr None, store2\<lparr>warned := [(''Failed to add node: Duplicate key for property id: a1'', ''Post'')]\<rparr>) \<and>
   updateNode pass accept store2 (ex_options (Some ''a2'') (Some ''u1'') ''clash'') =
     (Inr None, store2\<lparr>warned := [(''Failed to update node: Duplicate key for property id: a2'', ''Post'')]\<rparr>)"
proof -
  let ?r1 = "ex_options (Some ''a3'') (Some ''u3'') ''third''"
  let ?r2 = "ex_options (Some ''a1'') (Some ''u3'') ''dup''"
  let ?r3 = "ex_options (Some ''a2'') (Some ''u1'') ''clash''"
  let ?old = "\<lparr>node_id = Some ''a1'', node_uid = Some ''u1'', node_loki = Some 1,
           node_fields = [(''title'', ''first'')]\<rparr>"
  have h1: "veto (pass ?r1 store2) store2 = None" by (simp add: veto_def)
  have h2: "accept (pass ?r2 store2) store2 = Some ?r2" by (simp add: accept_def pass_def)
  have i2: "coll_insert (collection_of store2) ?r2 = Inl ''Duplicate key for property id: a1''"
    by code_simp
  have g3: "getNode store2 (Obj (lookup_query (pass ?r3 store2))) = Some ?old" by code_simp
  have h3: "accept (pass ?r3 store2) store2 = Some ?r3" by (simp add: accept_def pass_def)
  have u3: "coll_update (collection_of store2)
          (?r3\<lparr>node_id := (if truthy (node_id (pass ?r3 store2)) then node_id (pass ?r3 store2)
                              else node_id ?old),
                 node_loki := node_loki ?old\<rparr>) = Inl ''Duplicate key for property id: a2''"
    by code_simp
  have w: "warned store2 = []" "typeName store2 = ''Post''" by code_simp+
  have c1: "addNode pass veto store2 ?r1 = (Inr None, store2)"
    using rejected_operations [of veto pass ?r1 store2] h1 by blast
  have c2: "addNode pass accept store2 ?r2 =
     (Inr None, store2\<lparr>warned := warned store2 @ [(''Failed to add node: '' @ ''Duplicate key for property id: a1'', typeName store2)]\<rparr>)"
    using rejected_operations [of accept pass ?r2 store2] h2 i2 by blast
  have c3: "updateNode pass accept store2 ?r3 =
     (Inr None, store2\<lparr>warned := warned store2 @ [(''Failed to update node: '' @ ''Duplicate key for property id: a2'', typeName store2)]\<rparr>)"
    using rejected_operations [of accept pass ?r3 store2] g3 h3 u3 by blast
  from c1 c2 c3 w show ?thesis by simp
qed

text \<open>
  Claim C7. When \<^verbatim>\<open>addNode\<close> inserts a node with id \<open>i\<close> (an insert succeeds only if no
  stored node has that id), the returned node is the hook's candidate with its row handle
  assigned, \<^verbatim>\<open>getNode(i)\<close> returns that same node, and after \<^verbatim>\<open>removeNode(i)\<close>, which
  succeeds, \<^verbatim>\<open>getNode(i)\<close> returns \<^verbatim>\<open>null\<close>.
\<close>

theorem add_get_remove:
  assumes add: "addNode nrm hook ct raw = (Inr (Some n), ct1)" and i: "node_id n = Some i"
  shows "(\<exists>node. hook (nrm raw ct) ct = Some node \<and>
            n = node\<lparr>node_loki := Some (Suc (maxId (collection_of ct)))\<rparr>) \<and>
         getNode ct1 (Str i) = Some n \<and>
         (\<exists>ct2. removeNode ct1 (Str i) = (Inr None, ct2) \<and> getNode ct2 (Str i) = None)"
proof -
  let ?ds = "data_of ct"
  from addNode_Some [OF add] obtain node c' where
    hk: "hook (nrm raw ct) ct = Some node" and
    ins: "coll_insert (collection_of ct) node = Inr (n, c')" and
    ct1: "ct1 = ct\<lparr>collection_of := c', emitted := emitted ct @ [Add n]\<rparr>"
    by blast
  from coll_insert_Inr [OF ins] have
    fresh: "\<not> has_id ?ds (node_id node)" and
    n: "n = node\<lparr>node_loki := Some (Suc (maxId (collection_of ct)))\<rparr>" and
    c': "c' = (collection_of ct)\<lparr>data := ?ds @ [n], maxId := Suc (maxId (collection_of ct))\<rparr>"
    by (simp_all add: data_of_def)
  from n i have "node_id node = Some i" by simp
  with fresh have none: "\<forall>d\<in>set ?ds. node_id d \<noteq> Some i" by (simp add: has_id_iff)
  have d1: "data_of ct1 = ?ds @ [n]" using ct1 c' by (simp add: data_of_def)
  have g1: "findOne (collection_of ct1) (QId (Some i)) = Some n"
    using find_append_last [of ?ds "matches (QId (Some i))" n] none i d1
    by (simp add: findOne_def data_of_def)
  let ?ct2 = "ct1\<lparr>collection_of := findAndRemove (collection_of ct1) (QUid (node_uid n)),
                  emitted := emitted ct1 @ [Remove n]\<rparr>"
  have rm: "removeNode ct1 (Str i) = (Inr None, ?ct2)"
    using g1 by (simp add: removeNode_def to_query_def)
  have d2: "data_of ?ct2 = filter (\<lambda>d. node_uid d \<noteq> node_uid n) (?ds @ [n])"
    using d1 by (simp add: data_of_def findAndRemove_def)
  have "\<forall>d\<in>set (data_of ?ct2). node_id d \<noteq> Some i"
    unfolding d2 using none by auto
  then have g2: "getNode ?ct2 (Str i) = None"
    by (simp add: getNode_def findOne_def to_query_def find_None_iff data_of_def)
  have g1': "getNode ct1 (Str i) = Some n" using g1 by (simp add: getNode_def to_query_def)
  from hk n g1' rm g2 show ?thesis by blast
qed

theorem add_get_remove_witness:
  "fst (addNode pass accept store2 (ex_options (Some ''a3'') (Some ''u3'') ''third'')) =
     Inr (Some \<lparr>node_id = Some ''a3'', node_uid = Some ''u3'', node_loki = Some 3,
                node_fields = [(''title'', ''third'')]\<rparr>) \<and>
   getNode (snd (addNode pass accept store2 (ex_options (Some ''a3'') (Some ''u3'') ''third''))) (Str ''a3'') =
     Some \<lparr>node_id = Some ''a3'', node_uid = Some ''u3'', node_loki = Some 3,
           node_fields = [(''title'', ''third'')]\<rparr> \<and>
   (\<exists>ct2. removeNode (snd (addNode pass accept store2 (ex_options (Some ''a3'') (Some ''u3'') ''third''))) (Str ''a3'') =
            (Inr None, ct2) \<and> getNode ct2 (Str ''a3'') = None)"
proof -
  let ?n = "\<lparr>node_id = Some ''a3'', node_uid = Some ''u3'', node_loki = Some 3,
                node_fields = [(''title'', ''third'')]\<rparr>"
  let ?r = "addNode pass accept store2 (ex_options (Some ''a3'') (Some ''u3'') ''third'')"
  have f: "fst ?r = Inr (Some ?n)" by code_simp
  then have a: "?r = (Inr (Some ?n), snd ?r)" by (simp add: prod_eq_iff)
  have i: "node_id ?n = Some ''a3''" by simp
  from add_get_remove [of pass accept store2 "ex_options (Some ''a3'') (Some ''u3'') ''third''" ?n "snd ?r" "''a3''", OF a i] f show ?thesis by blast
qed

section \<open>Properties of schema composition\<close>

subsection \<open>Association lists and composer operations\<close>

lemma map_of_map_key:
  "map_of (map (\<lambda>(k, v). if k = f then (k, g v) else (k, v)) xs) k' =
     (if k' = f then map_option g (map_of xs f) else map_of xs k')"
  by (induction xs) auto

lemma map_of_spread:
  "map_of (spread a b) k = (case map_of b k of Some v \<Rightarrow> Some v | None \<Rightarrow> map_of a k)"
proof -
  have 1: "map_of (map (\<lambda>(k, v). (k, case map_of b k of Some v' \<Rightarrow> v' | None \<Rightarrow> v)) a) k =
        (case map_of a k of None \<Rightarrow> None
         | Some v \<Rightarrow> Some (case map_of b k of Some v' \<Rightarrow> v' | None \<Rightarrow> v))"
    by (induction a) (auto split: option.splits)
  have "\<And>S. map_of (filter (\<lambda>(k, v). k \<notin> S) b) k = (if k \<in> S then None else map_of b k)"
    by (induction b) auto
  then have 2: "map_of (filter (\<lambda>(k, v). k \<notin> set (map fst a)) b) k =
        (if k \<in> set (map fst a) then None else map_of b k)" .
  have 3: "map_of a k = None \<longleftrightarrow> k \<notin> set (map fst a)"
    by (simp add: map_of_eq_None_iff)
  show ?thesis
    unfolding spread_def map_of_append map_add_def 1 2
    using 3 by (auto split: option.splits)
qed

lemma getFieldConfig_extendField:
  "getFieldConfig (extendField tc f p) g =
     (if g = f then map_option (\<lambda>v. extend_config v p) (getFieldConfig tc f)
      else getFieldConfig tc g)"
  by (simp add: getFieldConfig_def extendField_def map_of_map_key)

lemma getFieldConfig_addFields:
  "getFieldConfig tc f = None \<Longrightarrow>
   getFieldConfig (addFields tc f fc) g = (if g = f then Some fc else getFieldConfig tc g)"
  by (auto simp: getFieldConfig_def addFields_def hasField_def map_add_def split: option.splits)

lemma getFieldResolver_cong:
  assumes "getFieldConfig tc g = Some fc" and "getFieldConfig tc2 g = Some fc2"
    and "fc_type fc2 = fc_type fc"
  shows "getFieldResolver str sc tc2 g = getFieldResolver str sc tc g"
proof -
  have p: "isFieldPlural fc2 = isFieldPlural fc" by (simp only: isFieldPlural_def assms(3))
  have t: "getFieldTC sc fc2 = getFieldTC sc fc" by (simp only: getFieldTC_def assms(3))
  show ?thesis unfolding getFieldResolver_def assms(1,2) option.case p t ..
qed

lemma process_fields_Cons:
  assumes "process_fields str sc tc (n # rest) = Inr tc'"
  shows "\<exists>fcn res tc1. getFieldConfig tc n = Some fcn \<and>
           getFieldResolver str sc tc n = Inr res \<and>
           process_fields str sc tc1 rest = Inr tc' \<and>
           tc1 = (case res of None \<Rightarrow> tc | Some r \<Rightarrow> extendField tc n (wiring r fcn))"
proof (cases "getFieldConfig tc n")
  case None
  with assms show ?thesis by simp
next
  case fcn: (Some fcn)
  show ?thesis
  proof (cases "getFieldResolver str sc tc n")
    case (Inl e)
    with fcn assms show ?thesis by simp
  next
    case (Inr res)
    with fcn assms show ?thesis by (cases res) (simp_all add: Let_def wiring_def)
  qed
qed

lemma process_fields_frame:
  "process_fields str sc tc names = Inr tc' \<Longrightarrow> g \<notin> set names \<Longrightarrow>
     getFieldConfig tc' g = getFieldConfig tc g"
proof (induction names arbitrary: tc)
  case Nil
  then show ?case by simp
next
  case (Cons n rest)
  from process_fields_Cons [OF Cons.prems(1)] obtain fcn res tc1 where
    run: "process_fields str sc tc1 rest = Inr tc'" and
    tc1: "tc1 = (case res of None \<Rightarrow> tc | Some r \<Rightarrow> extendField tc n (wiring r fcn))"
    by blast
  from Cons.prems(2) have gn: "g \<noteq> n" and gr: "g \<notin> set rest" by auto
  have "getFieldConfig tc1 g = getFieldConfig tc g"
    using tc1 gn by (cases res) (simp_all add: getFieldConfig_extendField)
  with Cons.IH [OF run gr] show ?case by simp
qed

lemma process_fields_result:
  "distinct names \<Longrightarrow> process_fields str sc tc names = Inr tc' \<Longrightarrow> g \<in> set names \<Longrightarrow>
     getFieldConfig tc g = Some fc \<Longrightarrow>
     \<exists>res. getFieldResolver str sc tc g = Inr res \<and>
       getFieldConfig tc' g =
         Some (case res of None \<Rightarrow> fc | Some r \<Rightarrow> extend_config fc (wiring r fc))"
proof (induction names arbitrary: tc)
  case Nil
  then show ?case by simp
next
  case (Cons n rest)
  from process_fields_Cons [OF Cons.prems(2)] obtain fcn res tc1 where
    fcn: "getFieldConfig tc n = Some fcn" and
    res: "getFieldResolver str sc tc n = Inr res" and
    run: "process_fields str sc tc1 rest = Inr tc'" and
    tc1: "tc1 = (case res of None \<Rightarrow> tc | Some r \<Rightarrow> extendField tc n (wiring r fcn))"
    by blast
  from Cons.prems(1) have nr: "n \<notin> set rest" and dr: "distinct rest" by auto
  show ?case
  proof (cases "g = n")
    case True
    with fcn Cons.prems(4) have eq: "fcn = fc" by simp
    have "getFieldConfig tc' n = getFieldConfig tc1 n"
      by (rule process_fields_frame [OF run nr])
    also have "\<dots> = Some (case res of None \<Rightarrow> fc | Some r \<Rightarrow> extend_config fc (wiring r fc))"
      using tc1 fcn eq by (cases res) (simp_all add: getFieldConfig_extendField)
    finally show ?thesis using res True by blast
  next
    case False
    with Cons.prems(3) have gr: "g \<in> set rest" by simp
    have same: "getFieldConfig tc1 g = Some fc"
      using tc1 False Cons.prems(4) by (cases res) (simp_all add: getFieldConfig_extendField)
    have "getFieldResolver str sc tc1 g = getFieldResolver str sc tc g"
      by (rule getFieldResolver_cong [OF Cons.prems(4) same]) simp
    with Cons.IH [OF dr run gr same] show ?thesis by simp
  qed
qed

lemma extend_all_fields_name:
  "tc_name (extend_all_fields opts tc names) = tc_name tc"
  by (induction names arbitrary: tc) (simp_all add: Let_def extendFieldExtensions_def)

subsection \<open>The loops of \<^verbatim>\<open>addResolvers\<close>\<close>

lemma addResolvers_fields_Cons:
  assumes "addResolvers_fields tn tc ((f, fo) # rest) = Inr tc'"
  shows "(getFieldConfig tc f = None \<longrightarrow> truthy_type (fo_type fo)) \<and>
         (\<exists>tc1. addResolvers_fields tn tc1 rest = Inr tc' \<and>
            tc_kind tc1 = tc_kind tc \<and>
            (\<forall>g. getFieldConfig tc1 g =
                   (if g = f then Some (overlaid (getFieldConfig tc f) fo) else getFieldConfig tc g)))"
proof (cases "getFieldConfig tc f")
  case None
  with assms have t: "truthy_type (fo_type fo)" by (simp split: if_splits)
  let ?tc1 = "addFields tc f (new_field fo (the (fo_type fo)))"
  from assms None t have run: "addResolvers_fields tn ?tc1 rest = Inr tc'" by simp
  have k: "tc_kind ?tc1 = tc_kind tc" by (simp add: addFields_def)
  have g: "\<forall>g. getFieldConfig ?tc1 g =
             (if g = f then Some (overlaid (getFieldConfig tc f) fo) else getFieldConfig tc g)"
    using None by (simp add: getFieldConfig_addFields overlaid_def)
  from None t run k g show ?thesis by blast
next
  case (Some field)
  let ?tc1 = "extendField tc f (overlay fo field)"
  from assms Some have run: "addResolvers_fields tn ?tc1 rest = Inr tc'"
    by (simp add: Let_def overlay_def)
  have k: "tc_kind ?tc1 = tc_kind tc" by (simp add: extendField_def)
  have g: "\<forall>g. getFieldConfig ?tc1 g =
             (if g = f then Some (overlaid (getFieldConfig tc f) fo) else getFieldConfig tc g)"
    using Some by (simp add: getFieldConfig_extendField overlaid_def)
  from Some run k g show ?thesis by auto
qed

lemma addResolvers_fields_frame:
  "addResolvers_fields tn tc fs = Inr tc' \<Longrightarrow>
     tc_kind tc' = tc_kind tc \<and>
     (\<forall>g. g \<notin> fst ` set fs \<longrightarrow> getFieldConfig tc' g = getFieldConfig tc g)"
proof (induction fs arbitrary: tc)
  case Nil
  then show ?case by simp
next
  case (Cons a rest)
  obtain f fo where a: "a = (f, fo)" by (cases a)
  from addResolvers_fields_Cons [OF Cons.prems [unfolded a], THEN conjunct2] obtain tc1 where
    run: "addResolvers_fields tn tc1 rest = Inr tc'" and
    k: "tc_kind tc1 = tc_kind tc" and
    g: "\<forall>g. getFieldConfig tc1 g =
           (if g = f then Some (overlaid (getFieldConfig tc f) fo) else getFieldConfig tc g)"
    by blast
  from Cons.IH [OF run] k g a show ?case by simp
qed

lemma addResolvers_fields_result:
  "distinct (map fst fs) \<Longrightarrow> (f, fo) \<in> set fs \<Longrightarrow> addResolvers_fields tn tc fs = Inr tc' \<Longrightarrow>
     (getFieldConfig tc f = None \<longrightarrow> truthy_type (fo_type fo)) \<and>
     getFieldConfig tc' f = Some (overlaid (getFieldConfig tc f) fo)"
proof (induction fs arbitrary: tc)
  case Nil
  then show ?case by simp
next
  case (Cons a rest)
  obtain f' fo' where a: "a = (f', fo')" by (cases a)
  note step = addResolvers_fields_Cons [OF Cons.prems(3) [unfolded a]]
  from step have t: "getFieldConfig tc f' = None \<longrightarrow> truthy_type (fo_type fo')" ..
  from step [THEN conjunct2] obtain tc1 where
    run: "addResolvers_fields tn tc1 rest = Inr tc'" and
    g: "\<forall>g. getFieldConfig tc1 g =
           (if g = f' then Some (overlaid (getFieldConfig tc f') fo') else getFieldConfig tc g)"
    by blast
  from Cons.prems(1) a have nr: "f' \<notin> fst ` set rest" and dr: "distinct (map fst rest)" by auto
  show ?case
  proof (cases "(f, fo) = (f', fo')")
    case True
    then have eq: "f' = f" "fo' = fo" by simp_all
    from addResolvers_fields_frame [OF run] nr eq
    have "getFieldConfig tc' f = getFieldConfig tc1 f" by blast
    with g t eq show ?thesis by simp
  next
    case False
    with Cons.prems(2) a have mem: "(f, fo) \<in> set rest" by auto
    then have "f \<in> fst ` set rest" by (rule rev_image_eqI) simp
    with nr have ne: "f \<noteq> f'" by auto
    with g have "getFieldConfig tc1 f = getFieldConfig tc f" by simp
    with Cons.IH [OF dr mem run] show ?thesis by simp
  qed
qed

lemma map_of_set_tc:
  "map_of (set_tc sc tn tc) k = (if k = tn then map_option (\<lambda>_. tc) (map_of sc tn) else map_of sc k)"
  by (simp add: set_tc_def map_of_map_key)

lemma getOTC_Inr: "getOTC sc tn = Inr tc \<longleftrightarrow> map_of sc tn = Some tc \<and> tc_kind tc = ObjectTypeComposer"
  by (auto simp: getOTC_def split: option.splits)

lemma getOTC_cong: "map_of sc2 tn = map_of sc tn \<Longrightarrow> getOTC sc2 tn = getOTC sc tn"
  by (simp add: getOTC_def)

lemma addResolvers_Cons:
  assumes "addResolvers sc ((tn, fs) # rest) = Inr sc'"
  shows "\<exists>tc tc1. getOTC sc tn = Inr tc \<and> addResolvers_fields tn tc fs = Inr tc1 \<and>
           addResolvers (set_tc sc tn tc1) rest = Inr sc'"
proof (cases "getOTC sc tn")
  case (Inl e)
  with assms show ?thesis by simp
next
  case tc: (Inr tc)
  show ?thesis
  proof (cases "addResolvers_fields tn tc fs")
    case (Inl e)
    with tc assms show ?thesis by simp
  next
    case (Inr tc1)
    with tc assms show ?thesis by simp
  qed
qed

lemma addResolvers_frame:
  "addResolvers sc rs = Inr sc' \<Longrightarrow>
     (\<forall>k. map_option tc_kind (map_of sc' k) = map_option tc_kind (map_of sc k)) \<and>
     (\<forall>k. k \<notin> fst ` set rs \<longrightarrow> map_of sc' k = map_of sc k)"
proof (induction rs arbitrary: sc)
  case Nil
  then show ?case by simp
next
  case (Cons a rest)
  obtain tn fs where a: "a = (tn, fs)" by (cases a)
  from addResolvers_Cons [OF Cons.prems [unfolded a]] obtain tc tc1 where
    otc: "getOTC sc tn = Inr tc" and
    fl: "addResolvers_fields tn tc fs = Inr tc1" and
    run: "addResolvers (set_tc sc tn tc1) rest = Inr sc'"
    by blast
  from otc have m: "map_of sc tn = Some tc" by (simp add: getOTC_Inr)
  from addResolvers_fields_frame [OF fl] have k1: "tc_kind tc1 = tc_kind tc" by simp
  have kinds: "\<forall>k. map_option tc_kind (map_of (set_tc sc tn tc1) k) = map_option tc_kind (map_of sc k)"
    using m k1 by (simp add: map_of_set_tc)
  have others: "\<forall>k. k \<noteq> tn \<longrightarrow> map_of (set_tc sc tn tc1) k = map_of sc k"
    by (simp add: map_of_set_tc)
  from Cons.IH [OF run] kinds others a show ?case by simp
qed

lemma addResolvers_result:
  "distinct (map fst rs) \<Longrightarrow> (tn, fs) \<in> set rs \<Longrightarrow> addResolvers sc rs = Inr sc' \<Longrightarrow>
     \<exists>tc tc'. getOTC sc tn = Inr tc \<and> addResolvers_fields tn tc fs = Inr tc' \<and>
       map_of sc' tn = Some tc'"
proof (induction rs arbitrary: sc)
  case Nil
  then show ?case by simp
next
  case (Cons a rest)
  obtain tn' fs' where a: "a = (tn', fs')" by (cases a)
  from addResolvers_Cons [OF Cons.prems(3) [unfolded a]] obtain tc tc1 where
    otc: "getOTC sc tn' = Inr tc" and
    fl: "addResolvers_fields tn' tc fs' = Inr tc1" and
    run: "addResolvers (set_tc sc tn' tc1) rest = Inr sc'"
    by blast
  from otc have m: "map_of sc tn' = Some tc" by (simp add: getOTC_Inr)
  from Cons.prems(1) a have nr: "tn' \<notin> fst ` set rest" and dr: "distinct (map fst rest)" by auto
  show ?case
  proof (cases "(tn, fs) = (tn', fs')")
    case True
    then have eq: "tn' = tn" "fs' = fs" by simp_all
    from addResolvers_frame [OF run] nr
    have "map_of sc' tn' = map_of (set_tc sc tn' tc1) tn'" by blast
    with m have "map_of sc' tn' = Some tc1" by (simp add: map_of_set_tc)
    with otc fl eq show ?thesis by blast
  next
    case False
    with Cons.prems(2) a have mem: "(tn, fs) \<in> set rest" by auto
    then have "tn \<in> fst ` set rest" by (rule rev_image_eqI) simp
    with nr have ne: "tn \<noteq> tn'" by auto
    then have "getOTC (set_tc sc tn' tc1) tn = getOTC sc tn"
      by (intro getOTC_cong) (simp add: map_of_set_tc)
    with Cons.IH [OF dr mem run] show ?thesis by simp
  qed
qed

lemma addResolvers_append:
  "addResolvers sc (pre @ rs) =
     (case addResolvers sc pre of Inl e \<Rightarrow> Inl e | Inr sc1 \<Rightarrow> addResolvers sc1 rs)"
proof (induction pre arbitrary: sc)
  case Nil
  then show ?case by simp
next
  case (Cons a pre)
  obtain tn fs where a: "a = (tn, fs)" by (cases a)
  show ?case unfolding a by (simp add: Cons.IH split: sum.splits)
qed

subsection \<open>The wiring pass\<close>

text \<open>
  Claim C2. \<^verbatim>\<open>createSchema\<close> applies \<^verbatim>\<open>processObjectFields\<close> once to each type composer of the
  registry. For a user-defined Object type other than \<^verbatim>\<open>Query\<close> on which the function returns,
  every field whose type is an Object type with the \<^verbatim>\<open>Node\<close> interface gets the target type's
  \<^verbatim>\<open>findMany\<close> resolver when the field is plural and its \<^verbatim>\<open>findOne\<close> resolver otherwise: the
  field's arguments become the resolver's arguments overlaid with the field's own (the
  field's own win on a shared name), and the field's resolve function becomes a closure that
  passes the selected resolver's function as \<^verbatim>\<open>originalResolver\<close> and runs the field's own
  resolve function if it had one, the selected resolver's otherwise. The field's type is
  untouched.
\<close>

theorem wiring_node_fields:
  assumes obj: "tc_kind tc = ObjectTypeComposer"
    and nq: "tc_name tc \<noteq> ''Query''"
    and ud: "js_truthy (getExtension tc ''isUserDefined'')"
    and dist: "distinct (map fst (tc_fields tc))"
    and ok: "processObjectFields str sc tc = Inr tc'"
    and fc: "getFieldConfig tc fieldName = Some fc"
    and tgt: "getFieldTC sc fc = Inr target"
    and nodecap: "tc_kind target = ObjectTypeComposer \<and> hasInterface target ''Node''"
  shows "\<exists>r orig resolve.
           getResolver target (if isFieldPlural fc then ''findMany'' else ''findOne'') = Inr r \<and>
           orig = (case r_resolve r of Some f \<Rightarrow> f | None \<Rightarrow> DefaultFieldResolver) \<and>
           resolve = (case fc_resolve fc of Some f \<Rightarrow> f | None \<Rightarrow> orig) \<and>
           getFieldConfig tc' fieldName =
             Some (fc\<lparr>fc_args := spread (r_args r) (fc_args fc),
                      fc_resolve := Some (Wrapper (Some resolve) orig)\<rparr>) \<and>
           (\<forall>k. map_of (spread (r_args r) (fc_args fc)) k =
                  (case map_of (fc_args fc) k of Some v \<Rightarrow> Some v | None \<Rightarrow> map_of (r_args r) k)) \<and>
           (\<forall>i. call (Wrapper (Some resolve) orig) i = call resolve (i\<lparr>originalResolver := Some orig\<rparr>))"
proof -
  from ok obj nq ud have run: "process_fields str sc tc (map fst (tc_fields tc)) = Inr tc'"
    by (simp add: processObjectFields_def)
  from fc have mem: "fieldName \<in> set (map fst (tc_fields tc))"
    by (auto simp: getFieldConfig_def dest: map_of_SomeD intro: rev_image_eqI)
  from process_fields_result [OF dist run mem fc] obtain res where
    res: "getFieldResolver str sc tc fieldName = Inr res" and
    out: "getFieldConfig tc' fieldName =
         Some (case res of None \<Rightarrow> fc | Some r \<Rightarrow> extend_config fc (wiring r fc))"
    by blast
  let ?name = "if isFieldPlural fc then ''findMany'' else ''findOne''"
  from res fc tgt nodecap obtain r where
    r: "getResolver target ?name = Inr r" and r': "res = Some r"
    by (auto simp: getFieldResolver_def Let_def split: sum.splits if_splits)
  let ?orig = "case r_resolve r of Some f \<Rightarrow> f | None \<Rightarrow> DefaultFieldResolver"
  let ?resolve = "case fc_resolve fc of Some f \<Rightarrow> f | None \<Rightarrow> ?orig"
  have cfg: "getFieldConfig tc' fieldName =
             Some (fc\<lparr>fc_args := spread (r_args r) (fc_args fc),
                      fc_resolve := Some (Wrapper (Some ?resolve) ?orig)\<rparr>)"
    using out r' by (simp add: extend_config_def wiring_def)
  have sp: "\<forall>k. map_of (spread (r_args r) (fc_args fc)) k =
                  (case map_of (fc_args fc) k of Some v \<Rightarrow> Some v | None \<Rightarrow> map_of (r_args r) k)"
    by (simp add: map_of_spread)
  have cl: "\<forall>i. call (Wrapper (Some ?resolve) ?orig) i = call ?resolve (i\<lparr>originalResolver := Some ?orig\<rparr>)"
    by simp
  from r cfg sp cl show ?thesis by blast
qed

theorem wiring_node_fields_witness:
  "tc_kind ex_post = ObjectTypeComposer \<and> tc_name ex_post \<noteq> ''Query'' \<and>
   js_truthy (getExtension ex_post ''isUserDefined'') \<and>
   distinct (map fst (tc_fields ex_post)) \<and>
   getFieldTC ex_schema \<lparr>fc_type = NonNull (ListOf (TypeName ''Author'')),
                          fc_args = [(''limit'', TypeName ''Float'')],
                          fc_resolve = Some (Fn ''editorsResolver''), fc_extensions = []\<rparr> = Inr ex_author \<and>
   tc_kind ex_author = ObjectTypeComposer \<and> hasInterface ex_author ''Node'' \<and>
   (\<exists>tc'. processObjectFields no_scalar_resolvers ex_schema ex_post = Inr tc' \<and>
      getFieldConfig tc' ''editors'' =
        Some \<lparr>fc_type = NonNull (ListOf (TypeName ''Author'')),
              fc_args = [(''sortBy'', TypeName ''String''), (''limit'', TypeName ''Float'')],
              fc_resolve = Some (Wrapper (Some (Fn ''editorsResolver'')) (Fn ''findManyAuthor'')),
              fc_extensions = []\<rparr> \<and>
      getFieldConfig tc' ''author'' =
        Some \<lparr>fc_type = TypeName ''Author'', fc_args = [(''id'', TypeName ''ID'')],
              fc_resolve = Some (Wrapper (Some (Fn ''findOneAuthor'')) (Fn ''findOneAuthor'')),
              fc_extensions = []\<rparr>)"
proof -
  let ?editors = "\<lparr>fc_type = NonNull (ListOf (TypeName ''Author'')),
                   fc_args = [(''limit'', TypeName ''Float'')],
                   fc_resolve = Some (Fn ''editorsResolver''), fc_extensions = []\<rparr>"
  let ?author = "\<lparr>fc_type = TypeName ''Author'', fc_args = [], fc_resolve = None,
                  fc_extensions = []\<rparr>"
  let ?many = "\<lparr>r_args = [(''sortBy'', TypeName ''String''), (''limit'', TypeName ''Int'')],
                r_resolve = Some (Fn ''findManyAuthor'')\<rparr>"
  let ?one = "\<lparr>r_args = [(''id'', TypeName ''ID'')], r_resolve = Some (Fn ''findOneAuthor'')\<rparr>"
  have h1: "tc_kind ex_post = ObjectTypeComposer" by code_simp
  have h2: "tc_name ex_post \<noteq> ''Query''" by code_simp
  have h3: "js_truthy (getExtension ex_post ''isUserDefined'')" by code_simp
  have h4: "distinct (map fst (tc_fields ex_post))" by code_simp
  have h5: "processObjectFields no_scalar_resolvers ex_schema ex_post = Inr (projr ex_wired)"
    unfolding ex_wired_def by code_simp
  have h6: "getFieldConfig ex_post ''editors'' = Some ?editors" by code_simp
  have h6': "getFieldConfig ex_post ''author'' = Some ?author" by code_simp
  have h7: "getFieldTC ex_schema ?editors = Inr ex_author" by code_simp
  have h7': "getFieldTC ex_schema ?author = Inr ex_author" by code_simp
  have h8: "tc_kind ex_author = ObjectTypeComposer \<and> hasInterface ex_author ''Node''" by code_simp
  have r1: "getResolver ex_author (if isFieldPlural ?editors then ''findMany'' else ''findOne'') = Inr ?many"
    by code_simp
  have r2: "getResolver ex_author (if isFieldPlural ?author then ''findMany'' else ''findOne'') = Inr ?one"
    by code_simp
  have s1: "spread (r_args ?many) (fc_args ?editors) =
      [(''sortBy'', TypeName ''String''), (''limit'', TypeName ''Float'')]" by code_simp
  have s2: "spread (r_args ?one) (fc_args ?author) = [(''id'', TypeName ''ID'')]" by code_simp
  from wiring_node_fields [OF h1 h2 h3 h4 h5 h6 h7 h8] r1 s1
  have e: "getFieldConfig (projr ex_wired) ''editors'' =
        Some \<lparr>fc_type = NonNull (ListOf (TypeName ''Author'')),
              fc_args = [(''sortBy'', TypeName ''String''), (''limit'', TypeName ''Float'')],
              fc_resolve = Some (Wrapper (Some (Fn ''editorsResolver'')) (Fn ''findManyAuthor'')),
              fc_extensions = []\<rparr>"
    by auto
  from wiring_node_fields [OF h1 h2 h3 h4 h5 h6' h7' h8] r2 s2
  have a: "getFieldConfig (projr ex_wired) ''author'' =
        Some \<lparr>fc_type = TypeName ''Author'', fc_args = [(''id'', TypeName ''ID'')],
              fc_resolve = Some (Wrapper (Some (Fn ''findOneAuthor'')) (Fn ''findOneAuthor'')),
              fc_extensions = []\<rparr>"
    by auto
  from h1 h2 h3 h4 h5 h7 h8 e a show ?thesis by blast
qed

subsection \<open>Resolver overlays\<close>

text \<open>
  Claim C1, as stated, fails: the overlay's \<^verbatim>\<open>type\<close> and \<^verbatim>\<open>args\<close> are taken with
  \<^verbatim>\<open>fieldOptions.type || field.type\<close> and \<^verbatim>\<open>fieldOptions.args || field.args\<close>. An overlay on the
  existing field \<^verbatim>\<open>Post.title\<close> (type \<^verbatim>\<open>String\<close>, argument \<^verbatim>\<open>format\<close>) that declares type \<^verbatim>\<open>Int\<close>
  and argument \<^verbatim>\<open>limit\<close> leaves the field with type \<^verbatim>\<open>Int\<close> and the single argument \<^verbatim>\<open>limit\<close>,
  where merging the two argument maps would have kept \<^verbatim>\<open>format\<close> as well.
\<close>

theorem overlay_replaces_type_and_args_counterexample:
  "getFieldConfig ex_post ''title'' =
     Some \<lparr>fc_type = TypeName ''String'', fc_args = [(''format'', TypeName ''String'')],
           fc_resolve = Some (Fn ''titleResolver''), fc_extensions = []\<rparr> \<and>
   field_of (addResolvers ex_schema [(''Post'', [(''title'', ex_overlay)])]) ''Post'' ''title'' =
     Some \<lparr>fc_type = TypeName ''Int'', fc_args = [(''limit'', TypeName ''Int'')],
           fc_resolve = Some (Wrapper (Some (Fn ''custom'')) (Fn ''titleResolver'')),
           fc_extensions = []\<rparr> \<and>
   spread [(''format'', TypeName ''String'')] [(''limit'', TypeName ''Int'')] =
     [(''format'', TypeName ''String''), (''limit'', TypeName ''Int'')]"
  by code_simp

text \<open>
  Claim C1, amended. When an overlay entry targets a field that already exists on its
  (Object) type and \<^verbatim>\<open>addResolvers\<close> returns, the field's resolve function is a closure that
  calls the overlay's resolve function with the prior one (the default field resolver when
  the field had none) in its invocation context as \<^verbatim>\<open>originalResolver\<close>; the field keeps its
  declared type unless the entry declares a type of its own, which then replaces it; and the
  field's argument map is replaced as a whole by the entry's when the entry gives one, and
  kept otherwise. Type and field keys of an overlay object are distinct.
\<close>

theorem overlay_existing_field:
  assumes dr: "distinct (map fst rs)" and mr: "(tn, fs) \<in> set rs"
    and df: "distinct (map fst fs)" and mf: "(f, fo) \<in> set fs"
    and tc: "map_of sc tn = Some tc" and field: "getFieldConfig tc f = Some field"
    and ok: "addResolvers sc rs = Inr sc'"
  shows "\<exists>tc' prior.
           map_of sc' tn = Some tc' \<and>
           prior = (case fc_resolve field of Some g \<Rightarrow> g | None \<Rightarrow> DefaultFieldResolver) \<and>
           getFieldConfig tc' f =
             Some (field\<lparr>fc_type := (if truthy_type (fo_type fo) then the (fo_type fo)
                                      else fc_type field),
                         fc_args := (case fo_args fo of Some a \<Rightarrow> a | None \<Rightarrow> fc_args field),
                         fc_resolve := Some (Wrapper (fo_resolve fo) prior)\<rparr>) \<and>
           (\<forall>g i. fo_resolve fo = Some g \<longrightarrow>
              call (Wrapper (fo_resolve fo) prior) i = call g (i\<lparr>originalResolver := Some prior\<rparr>))"
proof -
  from addResolvers_result [OF dr mr ok] obtain tc0 tc' where
    otc: "getOTC sc tn = Inr tc0" and
    fl: "addResolvers_fields tn tc0 fs = Inr tc'" and
    m': "map_of sc' tn = Some tc'"
    by blast
  from otc tc have eq: "tc0 = tc" by (simp add: getOTC_Inr)
  from addResolvers_fields_result [OF df mf fl] eq field
  have "getFieldConfig tc' f = Some (overlaid (Some field) fo)" by simp
  then have cfg: "getFieldConfig tc' f =
             Some (field\<lparr>fc_type := (if truthy_type (fo_type fo) then the (fo_type fo)
                                      else fc_type field),
                         fc_args := (case fo_args fo of Some a \<Rightarrow> a | None \<Rightarrow> fc_args field),
                         fc_resolve := Some (Wrapper (fo_resolve fo)
                            (case fc_resolve field of Some g \<Rightarrow> g | None \<Rightarrow> DefaultFieldResolver))\<rparr>)"
    by (simp add: overlaid_def overlay_def extend_config_def)
  have cl: "\<forall>g i. fo_resolve fo = Some g \<longrightarrow>
              call (Wrapper (fo_resolve fo)
                (case fc_resolve field of Some g \<Rightarrow> g | None \<Rightarrow> DefaultFieldResolver)) i =
              call g (i\<lparr>originalResolver :=
                Some (case fc_resolve field of Some g \<Rightarrow> g | None \<Rightarrow> DefaultFieldResolver)\<rparr>)"
    by simp
  from m' cfg cl show ?thesis by blast
qed

theorem overlay_existing_field_witness:
  "distinct (map fst ex_overlays) \<and>
   (''Post'', [(''title'', ex_overlay), (''extra'', ex_overlay)]) \<in> set ex_overlays \<and>
   distinct (map fst [(''title'', ex_overlay), (''extra'', ex_overlay)]) \<and>
   map_of ex_schema ''Post'' = Some ex_post \<and>
   getFieldConfig ex_post ''title'' =
     Some \<lparr>fc_type = TypeName ''String'', fc_args = [(''format'', TypeName ''String'')],
           fc_resolve = Some (Fn ''titleResolver''), fc_extensions = []\<rparr> \<and>
   (\<exists>sc' tc'. addResolvers ex_schema ex_overlays = Inr sc' \<and> map_of sc' ''Post'' = Some tc' \<and>
      getFieldConfig tc' ''title'' =
        Some \<lparr>fc_type = TypeName ''Int'', fc_args = [(''limit'', TypeName ''Int'')],
              fc_resolve = Some (Wrapper (Some (Fn ''custom'')) (Fn ''titleResolver'')),
              fc_extensions = []\<rparr>)"
proof -
  let ?fs = "[(''title'', ex_overlay), (''extra'', ex_overlay)]"
  let ?field = "\<lparr>fc_type = TypeName ''String'', fc_args = [(''format'', TypeName ''String'')],
           fc_resolve = Some (Fn ''titleResolver''), fc_extensions = []\<rparr>"
  have h1: "distinct (map fst ex_overlays)" by code_simp
  have h2: "(''Post'', ?fs) \<in> set ex_overlays" by (simp add: ex_overlays_def)
  have h3: "distinct (map fst ?fs)" by simp
  have h4: "(''title'', ex_overlay) \<in> set ?fs" by simp
  have h5: "map_of ex_schema ''Post'' = Some ex_post" by (simp add: ex_schema_def)
  have h6: "getFieldConfig ex_post ''title'' = Some ?field" by code_simp
  have h7: "addResolvers ex_schema ex_overlays = Inr (projr (addResolvers ex_schema ex_overlays))"
    by code_simp
  have v: "truthy_type (fo_type ex_overlay)" "the (fo_type ex_overlay) = TypeName ''Int''"
    "fo_args ex_overlay = Some [(''limit'', TypeName ''Int'')]"
    "fo_resolve ex_overlay = Some (Fn ''custom'')"
    by code_simp+
  from overlay_existing_field [OF h1 h2 h3 h4 h5 h6 h7] v
  have "\<exists>tc'. map_of (projr (addResolvers ex_schema ex_overlays)) ''Post'' = Some tc' \<and>
      getFieldConfig tc' ''title'' =
        Some \<lparr>fc_type = TypeName ''Int'', fc_args = [(''limit'', TypeName ''Int'')],
              fc_resolve = Some (Wrapper (Some (Fn ''custom'')) (Fn ''titleResolver'')),
              fc_extensions = []\<rparr>"
    by auto
  with h1 h2 h3 h5 h6 h7 show ?thesis by blast
qed

subsection \<open>Type names\<close>

text \<open>
  Claim C8. \<^verbatim>\<open>createType\<close> uses an explicit (non-empty) name as the name of the type it
  creates; without one, and with a naming path whose length is not one, the name is
  \<^verbatim>\<open>createTypeName\<close> of the path joined with spaces; without one and with a path of length
  one (the default path among them) it throws \<^verbatim>\<open>Missing required type name.\<close>
\<close>

theorem createType_name:
  "(truthy (to_name (ct_options ty)) \<longrightarrow>
      (\<exists>r. createType ctn ty p = Inr r \<and>
            (\<forall>tc. r = Some tc \<longrightarrow> Some (tc_name tc) = to_name (ct_options ty)) \<and>
            (ct_type ty \<noteq> Unknown \<longrightarrow> r \<noteq> None))) \<and>
   (\<forall>path. \<not> truthy (to_name (ct_options ty)) \<and> p = Some path \<and> length path \<noteq> 1 \<longrightarrow>
      (\<exists>r. createType ctn ty p = Inr r \<and>
            (\<forall>tc. r = Some tc \<longrightarrow> tc_name tc = ctn (join path)) \<and>
            (ct_type ty \<noteq> Unknown \<longrightarrow> r \<noteq> None))) \<and>
   (\<not> truthy (to_name (ct_options ty)) \<and> (p = None \<or> (\<exists>path. p = Some path \<and> length path = 1)) \<longrightarrow>
      createType ctn ty p = Inl (Error ''Missing required type name.''))"
proof (intro conjI impI allI)
  assume t: "truthy (to_name (ct_options ty))"
  then obtain s where s: "to_name (ct_options ty) = Some s"
    by (auto simp: truthy_def split: option.splits)
  show "\<exists>r. createType ctn ty p = Inr r \<and>
            (\<forall>tc. r = Some tc \<longrightarrow> Some (tc_name tc) = to_name (ct_options ty)) \<and>
            (ct_type ty \<noteq> Unknown \<longrightarrow> r \<noteq> None)"
    using t s
    by (cases "ct_type ty")
       (auto simp: createType_def Let_def show_id_def extend_all_fields_name createTemp_def)
next
  fix path
  assume a: "\<not> truthy (to_name (ct_options ty)) \<and> p = Some path \<and> length path \<noteq> 1"
  then show "\<exists>r. createType ctn ty p = Inr r \<and>
            (\<forall>tc. r = Some tc \<longrightarrow> tc_name tc = ctn (join path)) \<and>
            (ct_type ty \<noteq> Unknown \<longrightarrow> r \<noteq> None)"
    by (cases "ct_type ty")
       (auto simp: createType_def Let_def extend_all_fields_name createTemp_def)
next
  assume a: "\<not> truthy (to_name (ct_options ty)) \<and> (p = None \<or> (\<exists>path. p = Some path \<and> length path = 1))"
  then show "createType ctn ty p = Inl (Error ''Missing required type name.'')"
    by (auto simp: createType_def Let_def)
qed

theorem createType_name_witness:
  "createType (\<lambda>s. s) (ex_type\<lparr>ct_options := (ct_options ex_type)\<lparr>to_name := Some ''Post''\<rparr>\<rparr>)
      (Some [Some ''Blog'', Some ''post'']) \<noteq> Inl (Error ''Missing required type name.'') \<and>
   (\<exists>tc. createType (\<lambda>s. s) ex_type (Some [Some ''Post'', Some ''meta'']) = Inr (Some tc) \<and>
         tc_name tc = ''Post meta'') \<and>
   createType (\<lambda>s. s) ex_type None = Inl (Error ''Missing required type name.'') \<and>
   createType (\<lambda>s. s) ex_type (Some [None]) = Inl (Error ''Missing required type name.'')"
proof -
  let ?named = "ex_type\<lparr>ct_options := (ct_options ex_type)\<lparr>to_name := Some ''Post''\<rparr>\<rparr>"
  have n: "truthy (to_name (ct_options ?named))" by code_simp
  have u: "\<not> truthy (to_name (ct_options ex_type))" by code_simp
  have k: "ct_type ex_type \<noteq> Unknown" by code_simp
  have j: "join [Some ''Post'', Some ''meta''] = ''Post meta''" by simp
  have 1: "createType (\<lambda>s. s) ?named (Some [Some ''Blog'', Some ''post'']) \<noteq> Inl (Error ''Missing required type name.'')"
    using createType_name [of ?named "\<lambda>s. s" "Some [Some ''Blog'', Some ''post'']"] n by auto
  have 2: "\<exists>tc. createType (\<lambda>s. s) ex_type (Some [Some ''Post'', Some ''meta'']) = Inr (Some tc) \<and>
         tc_name tc = ''Post meta''"
    using createType_name [of ex_type "\<lambda>s. s" "Some [Some ''Post'', Some ''meta'']"] u k j by auto
  have 3: "createType (\<lambda>s. s) ex_type None = Inl (Error ''Missing required type name.'')"
    using createType_name [of ex_type "\<lambda>s. s" None] u by blast
  have 4: "createType (\<lambda>s. s) ex_type (Some [None]) = Inl (Error ''Missing required type name.'')"
    using createType_name [of ex_type "\<lambda>s. s" "Some [None]"] u by simp
  from 1 2 3 4 show ?thesis by blast
qed

text \<open>
  Claim C9. For an overlay entry whose field does not exist on its (Object) type: if the
  entry declares no type (absent or the empty string), \<^verbatim>\<open>addResolvers\<close> fails, with the
  message naming type and field when the entry is the whole overlay; if it declares a type,
  the entry alone is accepted, and whenever \<^verbatim>\<open>addResolvers\<close> returns the field exists with
  the entry's type, arguments and resolve function.
\<close>

theorem overlay_missing_field:
  assumes dr: "distinct (map fst rs)" and mr: "(tn, fs) \<in> set rs"
    and df: "distinct (map fst fs)" and mf: "(f, fo) \<in> set fs"
    and tc: "map_of sc tn = Some tc" and kind: "tc_kind tc = ObjectTypeComposer"
    and absent: "getFieldConfig tc f = None"
  shows "(\<not> truthy_type (fo_type fo) \<longrightarrow>
            (\<exists>e. addResolvers sc rs = Inl e) \<and>
            addResolvers sc [(tn, [(f, fo)])] =
              Inl (Error (tn @ ''.'' @ f @ '' must have a 'type' property.''))) \<and>
         (truthy_type (fo_type fo) \<longrightarrow>
            (\<exists>sc1. addResolvers sc [(tn, [(f, fo)])] = Inr sc1) \<and>
            (\<forall>sc'. addResolvers sc rs = Inr sc' \<longrightarrow>
               (\<exists>tc'. map_of sc' tn = Some tc' \<and>
                  getFieldConfig tc' f =
                    Some \<lparr>fc_type = the (fo_type fo),
                          fc_args = (case fo_args fo of Some a \<Rightarrow> a | None \<Rightarrow> []),
                          fc_resolve = fo_resolve fo, fc_extensions = []\<rparr>)))"
proof -
  from tc kind have otc: "getOTC sc tn = Inr tc" by (simp add: getOTC_Inr)
  have res: "\<And>sc'. addResolvers sc rs = Inr sc' \<Longrightarrow>
      truthy_type (fo_type fo) \<and>
      (\<exists>tc'. map_of sc' tn = Some tc' \<and> getFieldConfig tc' f = Some (overlaid None fo))"
  proof -
    fix sc' assume ok: "addResolvers sc rs = Inr sc'"
    from addResolvers_result [OF dr mr ok] otc obtain tc' where
      fl: "addResolvers_fields tn tc fs = Inr tc'" and m': "map_of sc' tn = Some tc'"
      by auto
    from addResolvers_fields_result [OF df mf fl] absent m'
    show "truthy_type (fo_type fo) \<and>
      (\<exists>tc'. map_of sc' tn = Some tc' \<and> getFieldConfig tc' f = Some (overlaid None fo))"
      by simp
  qed
  have fatal: "\<not> truthy_type (fo_type fo) \<Longrightarrow> \<exists>e. addResolvers sc rs = Inl e"
  proof -
    assume nt: "\<not> truthy_type (fo_type fo)"
    show ?thesis
    proof (cases "addResolvers sc rs")
      case (Inl e)
      then show ?thesis by blast
    next
      case (Inr sc')
      from res [OF Inr] nt show ?thesis by simp
    qed
  qed
  have single_fatal: "\<not> truthy_type (fo_type fo) \<Longrightarrow>
      addResolvers sc [(tn, [(f, fo)])] =
        Inl (Error (tn @ ''.'' @ f @ '' must have a 'type' property.''))"
    using otc absent by simp
  have single_ok: "truthy_type (fo_type fo) \<Longrightarrow> \<exists>sc1. addResolvers sc [(tn, [(f, fo)])] = Inr sc1"
    using otc absent by simp
  have fresh: "overlaid None fo =
      \<lparr>fc_type = the (fo_type fo), fc_args = (case fo_args fo of Some a \<Rightarrow> a | None \<Rightarrow> []),
       fc_resolve = fo_resolve fo, fc_extensions = []\<rparr>"
    by (simp add: overlaid_def new_field_def)
  from res fatal single_fatal single_ok fresh show ?thesis by auto
qed

theorem overlay_missing_field_witness:
  "distinct (map fst ex_overlays) \<and>
   (''Post'', [(''title'', ex_overlay), (''extra'', ex_overlay)]) \<in> set ex_overlays \<and>
   map_of ex_schema ''Post'' = Some ex_post \<and> tc_kind ex_post = ObjectTypeComposer \<and>
   getFieldConfig ex_post ''extra'' = None \<and>
   truthy_type (fo_type ex_overlay) \<and>
   \<not> truthy_type (fo_type (ex_overlay\<lparr>fo_type := None\<rparr>)) \<and>
   (\<exists>sc' tc'. addResolvers ex_schema ex_overlays = Inr sc' \<and> map_of sc' ''Post'' = Some tc' \<and>
      getFieldConfig tc' ''extra'' =
        Some \<lparr>fc_type = TypeName ''Int'', fc_args = [(''limit'', TypeName ''Int'')],
              fc_resolve = Some (Fn ''custom''), fc_extensions = []\<rparr>) \<and>
   addResolvers ex_schema [(''Post'', [(''extra'', ex_overlay\<lparr>fo_type := None\<rparr>)])] =
     Inl (Error ''Post.extra must have a 'type' property.'')"
proof -
  let ?fs = "[(''title'', ex_overlay), (''extra'', ex_overlay)]"
  let ?bad = "ex_overlay\<lparr>fo_type := None\<rparr>"
  let ?rs' = "[(''Post'', [(''extra'', ?bad)])]"
  have h1: "distinct (map fst ex_overlays)" by code_simp
  have h2: "(''Post'', ?fs) \<in> set ex_overlays" by (simp add: ex_overlays_def)
  have h3: "distinct (map fst ?fs)" by simp
  have h4: "(''extra'', ex_overlay) \<in> set ?fs" by simp
  have h5: "map_of ex_schema ''Post'' = Some ex_post" by (simp add: ex_schema_def)
  have h6: "tc_kind ex_post = ObjectTypeComposer" by code_simp
  have h7: "getFieldConfig ex_post ''extra'' = None" by code_simp
  have ok: "addResolvers ex_schema ex_overlays = Inr (projr (addResolvers ex_schema ex_overlays))"
    by code_simp
  have v: "truthy_type (fo_type ex_overlay)" "the (fo_type ex_overlay) = TypeName ''Int''"
    "fo_args ex_overlay = Some [(''limit'', TypeName ''Int'')]"
    "fo_resolve ex_overlay = Some (Fn ''custom'')"
    by code_simp+
  have nv: "\<not> truthy_type (fo_type ?bad)" by code_simp
  from overlay_missing_field [OF h1 h2 h3 h4 h5 h6 h7] v ok
  have good: "\<exists>tc'. map_of (projr (addResolvers ex_schema ex_overlays)) ''Post'' = Some tc' \<and>
      getFieldConfig tc' ''extra'' =
        Some \<lparr>fc_type = TypeName ''Int'', fc_args = [(''limit'', TypeName ''Int'')],
              fc_resolve = Some (Fn ''custom''), fc_extensions = []\<rparr>"
    by auto
  have g1: "distinct (map fst ?rs')" by simp
  have g2: "(''Post'', [(''extra'', ?bad)]) \<in> set ?rs'" by simp
  have g3: "distinct (map fst [(''extra'', ?bad)])" by simp
  have g4: "(''extra'', ?bad) \<in> set [(''extra'', ?bad)]" by simp
  from overlay_missing_field [OF g1 g2 g3 g4 h5 h6 h7] nv
  have bad: "addResolvers ex_schema ?rs' = Inl (Error (''Post'' @ ''.'' @ ''extra'' @ '' must have a 'type' property.''))"
    by blast
  from h1 h2 h5 h6 h7 v(1) nv good ok bad show ?thesis by auto
qed

text \<open>
  Claim C10. When an overlay is keyed by a type name that the registry does not hold as an
  Object type, \<^verbatim>\<open>addResolvers\<close> fails whatever the entries of that key are; when the keys
  before it are applied without error, the error is the one raised by \<^verbatim>\<open>getOTC\<close> for that
  name, so none of the key's fields is looked at.
\<close>

theorem overlay_unknown_type:
  assumes unreg: "\<forall>tc. map_of sc tn = Some tc \<longrightarrow> tc_kind tc \<noteq> ObjectTypeComposer"
  shows "(\<exists>e. addResolvers sc (pre @ (tn, fs) # rest) = Inl e) \<and>
         (\<forall>sc1. addResolvers sc pre = Inr sc1 \<longrightarrow>
            addResolvers sc (pre @ (tn, fs) # rest) =
              Inl (Error (''Cannot find ObjectTypeComposer with name '' @ tn)))"
proof -
  have at: "\<And>sc1. addResolvers sc pre = Inr sc1 \<Longrightarrow>
      addResolvers sc (pre @ (tn, fs) # rest) =
        Inl (Error (''Cannot find ObjectTypeComposer with name '' @ tn))"
  proof -
    fix sc1 assume pre: "addResolvers sc pre = Inr sc1"
    from addResolvers_frame [OF pre]
    have k: "map_option tc_kind (map_of sc1 tn) = map_option tc_kind (map_of sc tn)" by blast
    have "\<forall>tc. map_of sc1 tn = Some tc \<longrightarrow> tc_kind tc \<noteq> ObjectTypeComposer"
    proof (intro allI impI)
      fix tc1 assume m1: "map_of sc1 tn = Some tc1"
      with k have "map_option tc_kind (map_of sc tn) = Some (tc_kind tc1)" by simp
      then obtain tc where "map_of sc tn = Some tc" and "tc_kind tc = tc_kind tc1"
        by (cases "map_of sc tn") simp_all
      with unreg show "tc_kind tc1 \<noteq> ObjectTypeComposer" by auto
    qed
    then have "getOTC sc1 tn = Inl (Error (''Cannot find ObjectTypeComposer with name '' @ tn))"
      by (auto simp: getOTC_def split: option.splits)
    with pre show "addResolvers sc (pre @ (tn, fs) # rest) =
        Inl (Error (''Cannot find ObjectTypeComposer with name '' @ tn))"
      by (simp add: addResolvers_append)
  qed
  have "\<exists>e. addResolvers sc (pre @ (tn, fs) # rest) = Inl e"
  proof (cases "addResolvers sc pre")
    case (Inl e)
    then show ?thesis by (simp add: addResolvers_append)
  next
    case (Inr sc1)
    from at [OF Inr] show ?thesis by blast
  qed
  with at show ?thesis by blast
qed

theorem overlay_unknown_type_witness:
  "map_of ex_schema ''Missing'' = None \<and>
   map_option tc_kind (map_of ex_schema ''String'') = Some OtherTypeComposer \<and>
   addResolvers ex_schema
     ([(''Post'', [(''title'', ex_overlay)])] @
      (''Missing'', [(''x'', ex_overlay\<lparr>fo_type := None\<rparr>)]) # [(''Author'', [])]) =
     Inl (Error ''Cannot find ObjectTypeComposer with name Missing'') \<and>
   addResolvers ex_schema
     ([] @ (''String'', [(''x'', ex_overlay\<lparr>fo_type := None\<rparr>)]) # []) =
     Inl (Error ''Cannot find ObjectTypeComposer with name String'')"
proof -
  let ?pre = "[(''Post'', [(''title'', ex_overlay)])]"
  let ?fs = "[(''x'', ex_overlay\<lparr>fo_type := None\<rparr>)]"
  have m: "map_of ex_schema ''Missing'' = None" by code_simp
  have s: "map_option tc_kind (map_of ex_schema ''String'') = Some OtherTypeComposer" by code_simp
  have u1: "\<forall>tc. map_of ex_schema ''Missing'' = Some tc \<longrightarrow> tc_kind tc \<noteq> ObjectTypeComposer"
    using m by simp
  have u2: "\<forall>tc. map_of ex_schema ''String'' = Some tc \<longrightarrow> tc_kind tc \<noteq> ObjectTypeComposer"
    using s by auto
  have p: "addResolvers ex_schema ?pre = Inr (projr (addResolvers ex_schema ?pre))" by code_simp
  have e: "addResolvers ex_schema [] = Inr ex_schema" by simp
  from overlay_unknown_type [OF u1, of ?pre ?fs "[(''Author'', [])]"] p
  have 1: "addResolvers ex_schema (?pre @ (''Missing'', ?fs) # [(''Author'', [])]) =
     Inl (Error (''Cannot find ObjectTypeComposer with name '' @ ''Missing''))" by blast
  from overlay_unknown_type [OF u2, of "[]" ?fs "[]"] e
  have 2: "addResolvers ex_schema ([] @ (''String'', ?fs) # []) =
     Inl (Error (''Cannot find ObjectTypeComposer with name '' @ ''String''))" by blast
  from m s 1 2 show ?thesis by simp
qed

end
